theory Spec2Isabelle
  imports Main
begin

section \<open>Time\<close>

text \<open>
  The program reads two clocks. SQLite's \<^verbatim>\<open>CURRENT_TIMESTAMP\<close> and \<^verbatim>\<open>date('now')\<close>
  are UTC with a resolution of one second; Python's \<^verbatim>\<open>datetime.datetime.now()\<close> is the
  naive local time with a resolution of one microsecond. One reading of the clock is the
  instant in microseconds since 1970-01-01T00:00:00Z together with the offset of local
  time from UTC in seconds.

  A timestamp column holds ISO-8601 text of fixed width, whose order as text is the
  order in time; it is modelled by the number it denotes: a \<^verbatim>\<open>CURRENT_TIMESTAMP\<close> value
  by whole seconds since the epoch, a Python \<^verbatim>\<open>datetime\<close> by microseconds since the
  epoch, a calendar date by whole days since the epoch.
\<close>

type_synonym sql_timestamp = int
type_synonym py_datetime = int
type_synonym date = int

record clock =
  epoch_us :: int
  utc_offset :: int

definition CURRENT_TIMESTAMP :: "clock \<Rightarrow> sql_timestamp" where
  "CURRENT_TIMESTAMP clk = epoch_us clk div 1000000"

definition datetime_now :: "clock \<Rightarrow> py_datetime" where
  "datetime_now clk = epoch_us clk + utc_offset clk * 1000000"

text \<open>SQL \<^verbatim>\<open>DATE(clicked_at)\<close>: the calendar date of a UTC timestamp.\<close>

definition DATE :: "sql_timestamp \<Rightarrow> date" where
  "DATE t = t div 86400"

text \<open>SQL \<^verbatim>\<open>date('now', '-7 days')\<close>, with the number of days as a parameter.\<close>

definition date_now_minus :: "clock \<Rightarrow> int \<Rightarrow> date" where
  "date_now_minus clk n = DATE (CURRENT_TIMESTAMP clk) - n"

text \<open>Python \<^verbatim>\<open>datetime.date.today()\<close>: the calendar date of the local time.\<close>

definition date_today :: "clock \<Rightarrow> date" where
  "date_today clk = datetime_now clk div 86400000000"

section \<open>Errors\<close>

text \<open>
  \<^verbatim>\<open>HTTPException(status_code, detail)\<close> is what the handlers raise themselves;
  \<^verbatim>\<open>OverflowError\<close> is raised by \<^verbatim>\<open>datetime\<close> arithmetic and
  \<^verbatim>\<open>IntegrityError\<close> by an \<^verbatim>\<open>INSERT\<close> that violates \<^verbatim>\<open>UNIQUE\<close>.
\<close>

datatype error = HTTPException nat string | OverflowError | IntegrityError

definition InvalidURLError :: error where
  "InvalidURLError = HTTPException 400 ''Invalid URL format''"

definition CodeConflictError :: error where
  "CodeConflictError = HTTPException 400 ''Custom code already exists''"

definition NotFoundError :: error where
  "NotFoundError = HTTPException 404 ''Short URL not found''"

definition ExpiredError :: error where
  "ExpiredError = HTTPException 410 ''Short URL has expired''"

text \<open>
  \<^verbatim>\<open>datetime.timedelta(days=n)\<close> accepts at most 999999999 days in either direction, and
  a \<^verbatim>\<open>datetime\<close> lies between 0001-01-01 00:00:00 and 9999-12-31 23:59:59.999999.
\<close>

definition datetime_min :: py_datetime where
  "datetime_min = - 62135596800000000"

definition datetime_max :: py_datetime where
  "datetime_max = 253402300799999999"

definition timedelta_days :: "int \<Rightarrow> error + int" where
  "timedelta_days n =
     (if \<bar>n\<bar> > 999999999 then Inl OverflowError else Inr (n * 86400000000))"

definition datetime_add :: "py_datetime \<Rightarrow> int \<Rightarrow> error + py_datetime" where
  "datetime_add t delta =
     (let r = t + delta
      in if r < datetime_min \<or> datetime_max < r then Inl OverflowError else Inr r)"

section \<open>The database\<close>

text \<open>
  Table \<^verbatim>\<open>urls\<close>. The column \<^verbatim>\<open>id\<close> is the field \<open>url_id\<close>. The column
  \<^verbatim>\<open>expires_at\<close> holds the text that the \<^verbatim>\<open>sqlite3\<close> adapter writes for a
  \<^verbatim>\<open>datetime\<close> and that \<^verbatim>\<open>datetime.fromisoformat\<close> reads back unchanged, or NULL.
\<close>

record url_row =
  url_id :: nat
  original_url :: string
  short_code :: string
  created_at :: sql_timestamp
  clicks :: int
  is_active :: bool
  expires_at :: "py_datetime option"

text \<open>
  Table \<^verbatim>\<open>analytics\<close>. The columns \<^verbatim>\<open>id\<close> and \<^verbatim>\<open>short_code\<close> are the fields
  \<open>click_id\<close> and \<open>click_short_code\<close>. SQLite does not enforce the foreign key
  (the program never switches \<^verbatim>\<open>PRAGMA foreign_keys\<close> on).
\<close>

record analytics_row =
  click_id :: nat
  click_short_code :: string
  ip_address :: string
  user_agent :: string
  referrer :: string
  clicked_at :: sql_timestamp

text \<open>
  A table is the list of its rows in rowid order, with the counter that
  \<^verbatim>\<open>AUTOINCREMENT\<close> keeps in \<^verbatim>\<open>sqlite_sequence\<close>. A query without
  \<^verbatim>\<open>ORDER BY\<close> scans a table in rowid order, so \<^verbatim>\<open>fetchone()\<close> is the first
  row of the list that satisfies the \<^verbatim>\<open>WHERE\<close> clause.
\<close>

record db =
  urls :: "url_row list"
  urls_seq :: nat
  analytics :: "analytics_row list"
  analytics_seq :: nat

definition init_database :: db where
  "init_database = \<lparr>urls = [], urls_seq = 0, analytics = [], analytics_seq = 0\<rparr>"

definition next_rowid :: "nat \<Rightarrow> nat list \<Rightarrow> nat" where
  "next_rowid s ids = Suc (max s (fold max ids 0))"

text \<open>
  The constraints that the schema enforces on \<^verbatim>\<open>urls\<close>: \<^verbatim>\<open>short_code\<close> is
  \<^verbatim>\<open>UNIQUE\<close>, and \<^verbatim>\<open>id\<close> is the rowid, which increases along the table.
\<close>

definition schema_ok :: "db \<Rightarrow> bool" where
  "schema_ok d \<longleftrightarrow>
     distinct (map short_code (urls d)) \<and> sorted_wrt (<) (map url_id (urls d))"

definition code_exists :: "string \<Rightarrow> url_row list \<Rightarrow> bool" where
  "code_exists c rows = (find (\<lambda>r. short_code r = c) rows \<noteq> None)"

text \<open>
  \<^verbatim>\<open>INSERT INTO urls (original_url, short_code, expires_at) VALUES (?, ?, ?)\<close>: the
  other columns of the new row take their defaults. The statement raises when the code
  is already in the table.
\<close>

definition new_url_row ::
  "clock \<Rightarrow> nat \<Rightarrow> string \<Rightarrow> string \<Rightarrow> py_datetime option \<Rightarrow> url_row" where
  "new_url_row clk i u c e =
     \<lparr>url_id = i, original_url = u, short_code = c,
      created_at = CURRENT_TIMESTAMP clk, clicks = 0,
      is_active = True, expires_at = e\<rparr>"

definition insert_url ::
  "clock \<Rightarrow> string \<Rightarrow> string \<Rightarrow> py_datetime option \<Rightarrow> db \<Rightarrow> error + (nat \<times> db)" where
  "insert_url clk u c e d =
     (if code_exists c (urls d) then Inl IntegrityError
      else
        let i = next_rowid (urls_seq d) (map url_id (urls d))
        in Inr (i, d\<lparr>urls := urls d @ [new_url_row clk i u c e], urls_seq := i\<rparr>))"

definition insert_analytics ::
  "clock \<Rightarrow> string \<Rightarrow> string \<Rightarrow> string \<Rightarrow> string \<Rightarrow> db \<Rightarrow> db" where
  "insert_analytics clk c ip ua ref d =
     (let i = next_rowid (analytics_seq d) (map click_id (analytics d));
          row = \<lparr>click_id = i, click_short_code = c, ip_address = ip,
                 user_agent = ua, referrer = ref,
                 clicked_at = CURRENT_TIMESTAMP clk\<rparr>
      in d\<lparr>analytics := analytics d @ [row], analytics_seq := i\<rparr>)"

section \<open>Configuration and external collaborators\<close>

text \<open>
  \<open>BASE_URL\<close> comes from the environment. \<^verbatim>\<open>urllib.parse.urlparse\<close> and the
  \<^verbatim>\<open>qrcode\<close> pipeline (QR code, PNG, base64) are library code: \<open>urlparse\<close> gives the
  scheme and the network location of a string, or \<open>None\<close> where the library raises;
  \<open>qr_png_base64\<close> gives the base64 text of the rendered image.
\<close>

record ParseResult =
  scheme :: string
  netloc :: string

record env =
  BASE_URL :: string
  urlparse :: "string \<Rightarrow> ParseResult option"
  qr_png_base64 :: "string \<Rightarrow> string"

section \<open>Utility functions\<close>

definition ascii_letters :: string where
  "ascii_letters = ''abcdefghijklmnopqrstuvwxyzABCDEFGHIJKLMNOPQRSTUVWXYZ''"

definition digits :: string where
  "digits = ''0123456789''"

definition characters :: string where
  "characters = ascii_letters @ digits"

text \<open>
  \<open>generate_short_code len rnd\<close>: the \<open>k\<close>-th call of \<^verbatim>\<open>random.choice(characters)\<close>
  in this run of the generator picks the character at index \<open>rnd k\<close>, taken modulo the
  size of the alphabet.
\<close>

definition generate_short_code :: "nat \<Rightarrow> (nat \<Rightarrow> nat) \<Rightarrow> string" where
  "generate_short_code len rnd =
     map (\<lambda>k. characters ! (rnd k mod length characters)) [0..<len]"

definition is_valid_url :: "env \<Rightarrow> string \<Rightarrow> bool" where
  "is_valid_url ev url =
     (case urlparse ev url of
        None \<Rightarrow> False
      | Some result \<Rightarrow> scheme result \<noteq> [] \<and> netloc result \<noteq> [])"

definition generate_qr_code :: "env \<Rightarrow> string \<Rightarrow> string" where
  "generate_qr_code ev url = ''data:image/png;base64,'' @ qr_png_base64 ev url"

text \<open>
  The request as the handlers read it: the headers by name and the host of the client.
  A header value is the string of its characters, which Starlette decodes as Latin-1,
  one character per byte. \<open>strip\<close> removes the characters that
  \<^verbatim>\<open>str.strip()\<close> treats as white space; among the first 256 code points these
  are 9 to 13, 28 to 32, 133 and 160.
\<close>

record request =
  headers :: "string \<rightharpoonup> string"
  client_host :: string

definition isspace :: "char \<Rightarrow> bool" where
  "isspace c \<longleftrightarrow>
     of_char c \<in> {9, 10, 11, 12, 13, 28, 29, 30, 31, 32, 133, 160 :: nat}"

definition strip :: "string \<Rightarrow> string" where
  "strip s = rev (dropWhile isspace (rev (dropWhile isspace s)))"

definition get_client_ip :: "request \<Rightarrow> string" where
  "get_client_ip rq =
     (case headers rq ''X-Forwarded-For'' of
        None \<Rightarrow> client_host rq
      | Some forwarded \<Rightarrow>
          if forwarded \<noteq> [] then strip (takeWhile (\<lambda>c. c \<noteq> CHR '','') forwarded)
          else client_host rq)"

definition headers_get :: "request \<Rightarrow> string \<Rightarrow> string \<Rightarrow> string" where
  "headers_get rq name dflt = (case headers rq name of None \<Rightarrow> dflt | Some v \<Rightarrow> v)"

section \<open>POST /api/shorten\<close>

text \<open>
  \<open>URLCreate\<close> is the request body; its field \<^verbatim>\<open>original_url\<close> is \<open>url_in\<close>.
  \<open>URLResponse\<close> is the response body, its fields prefixed with \<open>resp\<close>. The field
  \<^verbatim>\<open>created_at\<close> of a response is text: of a reused row it is the column as SQLite
  wrote it, of a new row it is \<^verbatim>\<open>datetime.datetime.now().isoformat()\<close>.
\<close>

record URLCreate =
  url_in :: string
  custom_code :: "string option"
  expires_in_days :: "int option"

datatype created_text = SqlText sql_timestamp | IsoText py_datetime

record URLResponse =
  resp_id :: nat
  resp_original_url :: string
  resp_short_code :: string
  resp_short_url :: string
  resp_created_at :: created_text
  resp_clicks :: int
  resp_qr_code :: string

definition short_url_of :: "env \<Rightarrow> string \<Rightarrow> string" where
  "short_url_of ev c = BASE_URL ev @ ''/'' @ c"

text \<open>\<^verbatim>\<open>SELECT * FROM urls WHERE original_url = ? AND is_active = 1\<close>, then \<^verbatim>\<open>fetchone()\<close>.\<close>

definition existing_url :: "string \<Rightarrow> url_row list \<Rightarrow> url_row option" where
  "existing_url u rows = find (\<lambda>r. original_url r = u \<and> is_active r) rows"

text \<open>
  The retry loop. Each element of \<open>draws\<close> holds the random choices of one call of
  \<open>generate_short_code\<close>; the loop has not ended within these calls when every one of
  them produced a code that is taken, and the result is then \<open>None\<close>.
\<close>

fun generate_unique :: "(nat \<Rightarrow> nat) list \<Rightarrow> url_row list \<Rightarrow> string option" where
  "generate_unique [] rows = None"
| "generate_unique (rnd # rnds) rows =
     (let c = generate_short_code 6 rnd
      in if code_exists c rows then generate_unique rnds rows else Some c)"

text \<open>
  "Generate unique short code": \<^verbatim>\<open>if not short_code\<close> holds for an absent and for an
  empty custom code.
\<close>

definition unique_short_code ::
  "string option \<Rightarrow> (nat \<Rightarrow> nat) list \<Rightarrow> url_row list \<Rightarrow> (error + string) option" where
  "unique_short_code cc draws rows =
     (if cc = None \<or> cc = Some [] then
        (case generate_unique draws rows of None \<Rightarrow> None | Some c \<Rightarrow> Some (Inr c))
      else if code_exists (the cc) rows then Some (Inl CodeConflictError)
      else Some (Inr (the cc)))"

text \<open>
  "Calculate expiration date": \<^verbatim>\<open>if url_data.expires_in_days\<close> holds for an integer
  other than zero.
\<close>

definition expiration_date :: "clock \<Rightarrow> int option \<Rightarrow> error + py_datetime option" where
  "expiration_date clk days =
     (case days of
        None \<Rightarrow> Inr None
      | Some n \<Rightarrow>
          if n = 0 then Inr None
          else
            (case timedelta_days n of
               Inl err \<Rightarrow> Inl err
             | Inr delta \<Rightarrow>
                 (case datetime_add (datetime_now clk) delta of
                    Inl err \<Rightarrow> Inl err
                  | Inr t \<Rightarrow> Inr (Some t))))"

definition response_of_row :: "env \<Rightarrow> url_row \<Rightarrow> URLResponse" where
  "response_of_row ev r =
     \<lparr>resp_id = url_id r, resp_original_url = original_url r,
      resp_short_code = short_code r,
      resp_short_url = short_url_of ev (short_code r),
      resp_created_at = SqlText (created_at r), resp_clicks = clicks r,
      resp_qr_code = generate_qr_code ev (short_url_of ev (short_code r))\<rparr>"

definition shorten_url ::
  "env \<Rightarrow> clock \<Rightarrow> (nat \<Rightarrow> nat) list \<Rightarrow> URLCreate \<Rightarrow> db \<Rightarrow>
     ((error + URLResponse) \<times> db) option" where
  "shorten_url ev clk draws url_data d =
     (if \<not> is_valid_url ev (url_in url_data) then Some (Inl InvalidURLError, d)
      else
        (case existing_url (url_in url_data) (urls d) of
           Some r \<Rightarrow> Some (Inr (response_of_row ev r), d)
         | None \<Rightarrow>
             (case unique_short_code (custom_code url_data) draws (urls d) of
                None \<Rightarrow> None
              | Some (Inl err) \<Rightarrow> Some (Inl err, d)
              | Some (Inr c) \<Rightarrow>
                  (case expiration_date clk (expires_in_days url_data) of
                     Inl err \<Rightarrow> Some (Inl err, d)
                   | Inr e \<Rightarrow>
                       (case insert_url clk (url_in url_data) c e d of
                          Inl err \<Rightarrow> Some (Inl err, d)
                        | Inr (i, d') \<Rightarrow>
                            Some (Inr \<lparr>resp_id = i,
                                       resp_original_url = url_in url_data,
                                       resp_short_code = c,
                                       resp_short_url = short_url_of ev c,
                                       resp_created_at = IsoText (datetime_now clk),
                                       resp_clicks = 0,
                                       resp_qr_code =
                                         generate_qr_code ev (short_url_of ev c)\<rparr>,
                                  d'))))))"

section \<open>GET /{short_code}\<close>

text \<open>
  \<^verbatim>\<open>urllib.parse.quote(string, safe)\<close> on the bytes of the UTF-8 encoding of the
  string, which is how a string of the request body or path is modelled: a byte that
  is a letter, a digit, one of \<^verbatim>\<open>_.-~\<close> or in \<open>safe\<close> stays, and any other byte
  becomes \<^verbatim>\<open>%\<close> and its two upper-case hexadecimal digits.
\<close>

definition ALWAYS_SAFE :: string where
  "ALWAYS_SAFE = ''ABCDEFGHIJKLMNOPQRSTUVWXYZabcdefghijklmnopqrstuvwxyz0123456789_.-~''"

definition hexdigit :: "nat \<Rightarrow> char" where
  "hexdigit n = ''0123456789ABCDEF'' ! n"

definition quoter :: "string \<Rightarrow> char \<Rightarrow> string" where
  "quoter safe c =
     (if c \<in> set (ALWAYS_SAFE @ safe) then [c]
      else [CHR ''%'', hexdigit (of_char c div 16), hexdigit (of_char c mod 16)])"

definition quote :: "string \<Rightarrow> string \<Rightarrow> string" where
  "quote s safe = concat (map (quoter safe) s)"

text \<open>
  Starlette's \<^verbatim>\<open>RedirectResponse(url, status_code)\<close>: a response with that status
  whose \<^verbatim>\<open>location\<close> header is
  \<^verbatim>\<open>quote(str(url), safe=":/%#?=@[]!$&'()*+,;")\<close>.
\<close>

record Response =
  status_code :: nat
  location :: string

definition redirect_safe :: string where
  "redirect_safe = '':/%#?=@[]!$&'()*+,;''"

definition RedirectResponse :: "string \<Rightarrow> nat \<Rightarrow> Response" where
  "RedirectResponse url status =
     \<lparr>status_code = status, location = quote url redirect_safe\<rparr>"

definition expired :: "clock \<Rightarrow> url_row \<Rightarrow> bool" where
  "expired clk r =
     (case expires_at r of None \<Rightarrow> False | Some t \<Rightarrow> datetime_now clk > t)"

definition redirect_url ::
  "string \<Rightarrow> request \<Rightarrow> clock \<Rightarrow> db \<Rightarrow> (error + Response) \<times> db" where
  "redirect_url c rq clk d =
     (case find (\<lambda>r. short_code r = c \<and> is_active r) (urls d) of
        None \<Rightarrow> (Inl NotFoundError, d)
      | Some url_data \<Rightarrow>
          if expired clk url_data then (Inl ExpiredError, d)
          else
            let ip = get_client_ip rq;
                ua = headers_get rq ''User-Agent'' [];
                ref = headers_get rq ''Referer'' [];
                d1 = insert_analytics clk c ip ua ref d;
                d2 = d1\<lparr>urls :=
                          map (\<lambda>r. if short_code r = c
                                    then r\<lparr>clicks := clicks r + 1\<rparr> else r)
                              (urls d1)\<rparr>
            in (Inr (RedirectResponse (original_url url_data) 302), d2))"

section \<open>GET /api/analytics\<close>

record AnalyticsResponse =
  total_links :: nat
  total_clicks :: nat
  today_clicks :: nat
  click_data :: "(date \<times> nat) list"

text \<open>
  "Click data for last 7 days": the rows whose \<^verbatim>\<open>clicked_at\<close> is not below
  \<^verbatim>\<open>date('now', '-7 days')\<close> as text, that is, not before midnight of that date; grouped
  by date, one entry per date that occurs, in ascending order of the date.
\<close>

definition daily_counts :: "clock \<Rightarrow> int \<Rightarrow> analytics_row list \<Rightarrow> (date \<times> nat) list" where
  "daily_counts clk n rows =
     (let ds = map (\<lambda>e. DATE (clicked_at e))
                 (filter (\<lambda>e. clicked_at e \<ge> date_now_minus clk n * 86400) rows)
      in map (\<lambda>dt. (dt, count_list ds dt)) (sort (remdups ds)))"

definition get_analytics :: "clock \<Rightarrow> db \<Rightarrow> AnalyticsResponse" where
  "get_analytics clk d =
     \<lparr>total_links = length (filter is_active (urls d)),
      total_clicks = length (analytics d),
      today_clicks =
        length (filter (\<lambda>e. DATE (clicked_at e) = date_today clk) (analytics d)),
      click_data = daily_counts clk 7 (analytics d)\<rparr>"

section \<open>GET /api/analytics/{short_code}\<close>

record url_info =
  info_original_url :: string
  info_short_code :: string
  info_created_at :: sql_timestamp
  info_total_clicks :: int

record click =
  c_ip_address :: string
  c_user_agent :: string
  c_referrer :: string
  c_clicked_at :: sql_timestamp

definition click_of :: "analytics_row \<Rightarrow> click" where
  "click_of e =
     \<lparr>c_ip_address = ip_address e, c_user_agent = user_agent e,
      c_referrer = referrer e, c_clicked_at = clicked_at e\<rparr>"

text \<open>\<^verbatim>\<open>ORDER BY clicked_at DESC\<close> is a stable sort on the negated key.\<close>

definition get_url_analytics :: "string \<Rightarrow> db \<Rightarrow> error + (url_info \<times> click list)" where
  "get_url_analytics c d =
     (case find (\<lambda>r. short_code r = c) (urls d) of
        None \<Rightarrow> Inl NotFoundError
      | Some url_data \<Rightarrow>
          Inr (\<lparr>info_original_url = original_url url_data,
                info_short_code = short_code url_data,
                info_created_at = created_at url_data,
                info_total_clicks = clicks url_data\<rparr>,
               map click_of
                 (sort_key (\<lambda>e. - clicked_at e)
                    (filter (\<lambda>e. click_short_code e = c) (analytics d)))))"

section \<open>GET /api/links\<close>

record link =
  link_id :: nat
  link_original_url :: string
  link_short_code :: string
  link_short_url :: string
  link_created_at :: sql_timestamp
  link_clicks :: int

definition link_of :: "env \<Rightarrow> url_row \<Rightarrow> link" where
  "link_of ev r =
     \<lparr>link_id = url_id r, link_original_url = original_url r,
      link_short_code = short_code r,
      link_short_url = short_url_of ev (short_code r),
      link_created_at = created_at r, link_clicks = clicks r\<rparr>"

definition get_all_links :: "env \<Rightarrow> db \<Rightarrow> link list" where
  "get_all_links ev d =
     map (link_of ev) (sort_key (\<lambda>r. - created_at r) (filter is_active (urls d)))"

section \<open>DELETE /api/links/{short_code}\<close>

text \<open>
  \<^verbatim>\<open>cursor.rowcount\<close> after the \<^verbatim>\<open>UPDATE\<close> is the number of rows that the
  \<^verbatim>\<open>WHERE\<close> clause matched, whether or not the update changed them.
\<close>

definition delete_link :: "string \<Rightarrow> db \<Rightarrow> (error + string) \<times> db" where
  "delete_link c d =
     (let rowcount = length (filter (\<lambda>r. short_code r = c) (urls d))
      in if rowcount = 0 then (Inl NotFoundError, d)
         else (Inr ''Link deactivated successfully'',
               d\<lparr>urls := map (\<lambda>r. if short_code r = c
                                    then r\<lparr>is_active := False\<rparr> else r)
                              (urls d)\<rparr>))"

section \<open>Runs of the service\<close>

text \<open>
  \<open>reach ev d d'\<close>: the handlers that write, called any number of times in any order
  with any arguments, lead from the database \<open>d\<close> to \<open>d'\<close>.
\<close>

inductive reach :: "env \<Rightarrow> db \<Rightarrow> db \<Rightarrow> bool" for ev :: env and d :: db where
  reach_refl: "reach ev d d"
| reach_shorten:
    "reach ev d d1 \<Longrightarrow> shorten_url ev clk draws url_data d1 = Some (res, d2)
       \<Longrightarrow> reach ev d d2"
| reach_redirect:
    "reach ev d d1 \<Longrightarrow> redirect_url c rq clk d1 = (res', d2) \<Longrightarrow> reach ev d d2"
| reach_delete:
    "reach ev d d1 \<Longrightarrow> delete_link c d1 = (res'', d2) \<Longrightarrow> reach ev d d2"

section \<open>Sample values\<close>

text \<open>
  Concrete values for the examples below. \<open>urlparse_sample\<close> stands for
  \<^verbatim>\<open>urlparse\<close>: it gives the scheme and the network location that the library gives
  for the two URLs of the examples, and neither for any other string, as the library
  does for \<^verbatim>\<open>"not a url"\<close>. \<open>qr_sample\<close> stands for the rendering of the QR code.
\<close>

definition urlparse_sample :: "string \<Rightarrow> ParseResult option" where
  "urlparse_sample u =
     (if u = ''https://example.com/page''
      then Some \<lparr>scheme = ''https'', netloc = ''example.com''\<rparr>
      else if u = ''http://example.com/a b''
      then Some \<lparr>scheme = ''http'', netloc = ''example.com''\<rparr>
      else Some \<lparr>scheme = [], netloc = []\<rparr>)"

definition qr_sample :: "string \<Rightarrow> string" where
  "qr_sample u = ''iVBORw0KGgo=''"

definition env0 :: env where
  "env0 = \<lparr>BASE_URL = ''http://localhost:5001'', urlparse = urlparse_sample,
           qr_png_base64 = qr_sample\<rparr>"

text \<open>2023-11-14 22:13:20 UTC, and the same instant two days later.\<close>

definition clk0 :: clock where
  "clk0 = \<lparr>epoch_us = 1700000000000000, utc_offset = 0\<rparr>"

definition clk2 :: clock where
  "clk2 = \<lparr>epoch_us = 1700172800000000, utc_offset = 0\<rparr>"

definition rq0 :: request where
  "rq0 = \<lparr>headers = [''User-Agent'' \<mapsto> ''curl/8.4.0''], client_host = ''127.0.0.1''\<rparr>"

definition row_page :: url_row where
  "row_page = \<lparr>url_id = 1, original_url = ''https://example.com/page'',
               short_code = ''abc123'', created_at = 1700000000, clicks = 0,
               is_active = True, expires_at = None\<rparr>"

definition db_page :: db where
  "db_page = \<lparr>urls = [row_page], urls_seq = 1, analytics = [], analytics_seq = 0\<rparr>"

definition row_old :: url_row where
  "row_old = \<lparr>url_id = 2, original_url = ''https://example.com/old'',
              short_code = ''old001'', created_at = 1700000100, clicks = 1,
              is_active = False, expires_at = None\<rparr>"

text \<open>A row that expires one day after \<open>clk0\<close>.\<close>

definition row_promo :: url_row where
  "row_promo = \<lparr>url_id = 3, original_url = ''https://example.com/promo'',
                short_code = ''promo1'', created_at = 1700000200, clicks = 0,
                is_active = True, expires_at = Some 1700086400000000\<rparr>"

definition click_old :: analytics_row where
  "click_old = \<lparr>click_id = 1, click_short_code = ''old001'', ip_address = ''10.0.0.7'',
                user_agent = ''curl/8.4.0'', referrer = [], clicked_at = 1700000150\<rparr>"

definition db_three :: db where
  "db_three = \<lparr>urls = [row_page, row_old, row_promo], urls_seq = 3,
               analytics = [click_old], analytics_seq = 1\<rparr>"

text \<open>Two active rows with the same original URL, the second created 100 seconds later.\<close>

definition row_dup :: url_row where
  "row_dup = \<lparr>url_id = 2, original_url = ''https://example.com/page'',
              short_code = ''xyz789'', created_at = 1700000100, clicks = 0,
              is_active = True, expires_at = None\<rparr>"

definition db_dup :: db where
  "db_dup = \<lparr>urls = [row_page, row_dup], urls_seq = 2, analytics = [], analytics_seq = 0\<rparr>"

definition db_old :: db where
  "db_old = \<lparr>urls = [row_old], urls_seq = 2, analytics = [click_old], analytics_seq = 1\<rparr>"

text \<open>
  The row and the database that \<open>shorten_url\<close> makes at \<open>clk0\<close> from the empty
  database, the custom code \<^verbatim>\<open>abc123\<close> and one day until expiration.
\<close>

definition row_exp :: url_row where
  "row_exp = \<lparr>url_id = 1, original_url = ''https://example.com/page'',
              short_code = ''abc123'', created_at = 1700000000, clicks = 0,
              is_active = True, expires_at = Some 1700086400000000\<rparr>"

definition db_exp :: db where
  "db_exp = \<lparr>urls = [row_exp], urls_seq = 1, analytics = [], analytics_seq = 0\<rparr>"

text \<open>The response to the call that creates \<open>row_page\<close> or \<open>row_exp\<close> at \<open>clk0\<close>.\<close>

definition resp_page :: URLResponse where
  "resp_page = \<lparr>resp_id = 1, resp_original_url = ''https://example.com/page'',
                resp_short_code = ''abc123'',
                resp_short_url = ''http://localhost:5001/abc123'',
                resp_created_at = IsoText 1700000000000000, resp_clicks = 0,
                resp_qr_code = ''data:image/png;base64,iVBORw0KGgo=''\<rparr>"

text \<open>
  Click events: two on the date of \<open>clk0\<close> (day 19675 since the epoch), and one ten
  days before \<open>clk0\<close>.
\<close>

definition click_a :: analytics_row where
  "click_a = \<lparr>click_id = 1, click_short_code = ''abc123'', ip_address = ''10.0.0.7'',
              user_agent = ''curl/8.4.0'', referrer = [], clicked_at = 1699950000\<rparr>"

definition click_b :: analytics_row where
  "click_b = \<lparr>click_id = 2, click_short_code = ''abc123'', ip_address = ''10.0.0.8'',
              user_agent = ''curl/8.4.0'', referrer = [], clicked_at = 1700000000\<rparr>"

definition click_c :: analytics_row where
  "click_c = \<lparr>click_id = 1, click_short_code = ''abc123'', ip_address = ''10.0.0.9'',
              user_agent = ''curl/8.4.0'', referrer = [], clicked_at = 1699136000\<rparr>"

definition db_today :: db where
  "db_today = \<lparr>urls = [row_page], urls_seq = 1, analytics = [click_a, click_b],
               analytics_seq = 2\<rparr>"

definition db_tenago :: db where
  "db_tenago = \<lparr>urls = [row_page], urls_seq = 1, analytics = [click_c],
                analytics_seq = 1\<rparr>"

text \<open>
  \<open>db_today\<close> after the Link \<^verbatim>\<open>abc123\<close> has been deactivated, and after the same URL
  has then been shortened again at \<open>clk2\<close> with the custom code \<^verbatim>\<open>xyz789\<close>.
\<close>

definition row_page_off :: url_row where
  "row_page_off = row_page\<lparr>is_active := False\<rparr>"

definition row_again :: url_row where
  "row_again = \<lparr>url_id = 2, original_url = ''https://example.com/page'',
                short_code = ''xyz789'', created_at = 1700172800, clicks = 0,
                is_active = True, expires_at = None\<rparr>"

definition db_off :: db where
  "db_off = \<lparr>urls = [row_page_off], urls_seq = 1, analytics = [click_a, click_b],
             analytics_seq = 2\<rparr>"

definition db_again :: db where
  "db_again = \<lparr>urls = [row_page_off, row_again], urls_seq = 2,
               analytics = [click_a, click_b], analytics_seq = 2\<rparr>"

definition resp_again :: URLResponse where
  "resp_again = \<lparr>resp_id = 2, resp_original_url = ''https://example.com/page'',
                 resp_short_code = ''xyz789'',
                 resp_short_url = ''http://localhost:5001/xyz789'',
                 resp_created_at = IsoText 1700172800000000, resp_clicks = 0,
                 resp_qr_code = ''data:image/png;base64,iVBORw0KGgo=''\<rparr>"

text \<open>A click event seven days before \<open>clk0\<close>, on day 19668.\<close>

definition click_d :: analytics_row where
  "click_d = \<lparr>click_id = 1, click_short_code = ''abc123'', ip_address = ''10.0.0.9'',
              user_agent = ''curl/8.4.0'', referrer = [], clicked_at = 1699395200\<rparr>"

definition db_week :: db where
  "db_week = \<lparr>urls = [row_page], urls_seq = 1, analytics = [click_d],
              analytics_seq = 1\<rparr>"

text \<open>A URL with a space, shortened at \<open>clk0\<close> with the custom code \<^verbatim>\<open>space1\<close>.\<close>

definition row_space :: url_row where
  "row_space = \<lparr>url_id = 1, original_url = ''http://example.com/a b'',
                short_code = ''space1'', created_at = 1700000000, clicks = 0,
                is_active = True, expires_at = None\<rparr>"

definition db_space :: db where
  "db_space = \<lparr>urls = [row_space], urls_seq = 1, analytics = [], analytics_seq = 0\<rparr>"

definition resp_space :: URLResponse where
  "resp_space = \<lparr>resp_id = 1, resp_original_url = ''http://example.com/a b'',
                 resp_short_code = ''space1'',
                 resp_short_url = ''http://localhost:5001/space1'',
                 resp_created_at = IsoText 1700000000000000, resp_clicks = 0,
                 resp_qr_code = ''data:image/png;base64,iVBORw0KGgo=''\<rparr>"

section \<open>A predicate on the table of Links\<close>

text \<open>\<open>deactivated c rows\<close>: some row has the code \<open>c\<close>, and no row with that code is active.\<close>

definition deactivated :: "string \<Rightarrow> url_row list \<Rightarrow> bool" where
  "deactivated c rows \<longleftrightarrow>
     c \<in> short_code ` set rows \<and> (\<forall>r\<in>set rows. short_code r = c \<longrightarrow> \<not> is_active r)"

section \<open>Facts about the queries\<close>

lemma code_exists_iff: "code_exists c rows \<longleftrightarrow> c \<in> short_code ` set rows"
  unfolding code_exists_def find_None_iff by blast

lemma find_unique:
  "distinct (map f xs) \<Longrightarrow> r \<in> set xs \<Longrightarrow> P r \<Longrightarrow> (\<forall>x\<in>set xs. P x \<longrightarrow> f x = f r)
     \<Longrightarrow> find P xs = Some r"
proof (induction xs)
  case Nil
  then show ?case by simp
next
  case (Cons a xs)
  show ?case
  proof (cases "a = r")
    case True
    with Cons.prems(3) show ?thesis by simp
  next
    case False
    with Cons.prems(2) have r: "r \<in> set xs" by simp
    then have "f r \<in> f ` set xs" by (rule imageI)
    with Cons.prems(1) have "f a \<noteq> f r" by auto
    with Cons.prems(4) have "\<not> P a" by auto
    moreover have "find P xs = Some r"
    proof (rule Cons.IH)
      show "distinct (map f xs)" using Cons.prems(1) by simp
      show "r \<in> set xs" by (rule r)
      show "P r" by (rule Cons.prems(3))
      show "\<forall>x\<in>set xs. P x \<longrightarrow> f x = f r" using Cons.prems(4) by simp
    qed
    ultimately show ?thesis by simp
  qed
qed

lemma find_active_code:
  assumes "schema_ok d" and "r \<in> set (urls d)" and "is_active r"
  shows "find (\<lambda>x. short_code x = short_code r \<and> is_active x) (urls d) = Some r"
proof (rule find_unique [where f = short_code])
  show "distinct (map short_code (urls d))" using assms(1) by (simp add: schema_ok_def)
  show "r \<in> set (urls d)" by (rule assms(2))
  show "short_code r = short_code r \<and> is_active r" using assms(3) by simp
  show "\<forall>x\<in>set (urls d). short_code x = short_code r \<and> is_active x \<longrightarrow> short_code x = short_code r"
    by blast
qed

lemma unique_code_row:
  assumes "schema_ok d" and "r \<in> set (urls d)" and "x \<in> set (urls d)"
    and "short_code x = short_code r"
  shows "x = r"
proof -
  have "inj_on short_code (set (urls d))"
    using assms(1) by (simp add: schema_ok_def distinct_map)
  then show ?thesis using assms(4) assms(3) assms(2) by (rule inj_onD)
qed

lemma schema_ok_db_three: "schema_ok db_three"
  by (simp add: schema_ok_def db_three_def row_page_def row_old_def row_promo_def)

lemma schema_ok_db_page: "schema_ok db_page"
  by (simp add: schema_ok_def db_page_def)

lemma existing_url_Some:
  "existing_url u rows = Some r \<Longrightarrow> r \<in> set rows \<and> original_url r = u \<and> is_active r"
  unfolding existing_url_def by (induction rows) (auto split: if_splits)

lemma existing_url_None:
  "existing_url u rows = None \<longleftrightarrow> \<not> (\<exists>r\<in>set rows. original_url r = u \<and> is_active r)"
  unfolding existing_url_def find_None_iff by blast

lemma find_sorted_least:
  "find P xs = Some r \<Longrightarrow> sorted_wrt (<) (map g xs)
     \<Longrightarrow> r \<in> set xs \<and> P r \<and> (\<forall>x\<in>set xs. P x \<longrightarrow> (g r :: nat) \<le> g x)"
proof (induction xs)
  case Nil
  then show ?case by simp
next
  case (Cons a xs)
  show ?case
  proof (cases "P a")
    case True
    with Cons.prems(1) have "r = a" by simp
    moreover have "\<forall>x\<in>set xs. g a < g x" using Cons.prems(2) by simp
    ultimately show ?thesis using True by (simp add: less_imp_le)
  next
    case False
    with Cons.prems(1) have "find P xs = Some r" by simp
    moreover have s: "sorted_wrt (<) (map g xs)" using Cons.prems(2) by simp
    ultimately have "r \<in> set xs \<and> P r \<and> (\<forall>x\<in>set xs. P x \<longrightarrow> g r \<le> g x)"
      by (rule Cons.IH)
    then show ?thesis using False by simp
  qed
qed

lemma valid_sample: "is_valid_url env0 ''https://example.com/page''"
  by (simp add: is_valid_url_def env0_def urlparse_sample_def)

lemma schema_ok_db_dup: "schema_ok db_dup"
  by (simp add: schema_ok_def db_dup_def row_page_def row_dup_def)

lemma fold_max_ge: "(s::nat) \<le> fold max ids s"
proof (induction ids arbitrary: s)
  case Nil
  show ?case by simp
next
  case (Cons a ids)
  have "max a s \<le> fold max ids (max a s)" by (rule Cons.IH)
  then show ?case by simp
qed

lemma fold_max_mem: "x \<in> set ids \<Longrightarrow> (x::nat) \<le> fold max ids s"
proof (induction ids arbitrary: s)
  case Nil
  then show ?case by simp
next
  case (Cons a ids)
  show ?case
  proof (cases "x = a")
    case True
    have "max a s \<le> fold max ids (max a s)" by (rule fold_max_ge)
    with True show ?thesis by simp
  next
    case False
    with Cons.prems have "x \<in> set ids" by simp
    then have "x \<le> fold max ids (max a s)" by (rule Cons.IH)
    then show ?thesis by simp
  qed
qed

lemma next_rowid_greater: "x \<in> set ids \<Longrightarrow> x < next_rowid s ids"
proof -
  assume "x \<in> set ids"
  then have "x \<le> fold max ids 0" by (rule fold_max_mem)
  then show ?thesis by (simp add: next_rowid_def)
qed

lemma schema_ok_append:
  assumes "schema_ok d" and "\<not> code_exists c (urls d)"
  shows "schema_ok (d\<lparr>urls := urls d @ [new_url_row clk (next_rowid s (map url_id (urls d))) u c e],
                      urls_seq := i\<rparr>)"
proof -
  have c: "c \<notin> short_code ` set (urls d)" using assms(2) code_exists_iff by blast
  have "\<forall>x\<in>set (urls d). url_id x < next_rowid s (map url_id (urls d))"
  proof
    fix x assume "x \<in> set (urls d)"
    then have "url_id x \<in> set (map url_id (urls d))" by simp
    then show "url_id x < next_rowid s (map url_id (urls d))" by (rule next_rowid_greater)
  qed
  then show ?thesis
    using assms(1) c by (simp add: schema_ok_def new_url_row_def sorted_wrt_append)
qed

lemma generate_unique_fresh:
  "generate_unique draws rows = Some c \<Longrightarrow> \<not> code_exists c rows"
  by (induction draws) (auto simp: Let_def split: if_splits)

lemma generate_unique_total:
  "\<exists>rnd\<in>set draws. \<not> code_exists (generate_short_code 6 rnd) rows
     \<Longrightarrow> \<exists>c. generate_unique draws rows = Some c"
  by (induction draws) (auto simp: Let_def)

lemma unique_short_code_fresh:
  "unique_short_code cc draws rows = Some (Inr c) \<Longrightarrow> \<not> code_exists c rows"
  by (auto simp: unique_short_code_def generate_unique_fresh
      split: if_splits option.splits)

lemma expiration_date_error:
  "expiration_date clk e = Inl err \<Longrightarrow> err = OverflowError"
  by (auto simp: expiration_date_def timedelta_days_def datetime_add_def Let_def
      split: option.splits if_splits sum.splits)

text \<open>What a successful call of \<open>shorten_url\<close> has done.\<close>

lemma shorten_url_Inr:
  assumes "shorten_url ev clk draws ud d = Some (Inr resp, d1)"
  shows "is_valid_url ev (url_in ud) \<and>
     ((\<exists>r. existing_url (url_in ud) (urls d) = Some r \<and> resp = response_of_row ev r \<and> d1 = d)
      \<or> (existing_url (url_in ud) (urls d) = None \<and>
          (\<exists>c e. unique_short_code (custom_code ud) draws (urls d) = Some (Inr c)
             \<and> expiration_date clk (expires_in_days ud) = Inr e
             \<and> resp_short_code resp = c
             \<and> d1 = d\<lparr>urls := urls d @
                       [new_url_row clk (next_rowid (urls_seq d) (map url_id (urls d)))
                          (url_in ud) c e],
                     urls_seq := next_rowid (urls_seq d) (map url_id (urls d))\<rparr>)))"
proof (cases "is_valid_url ev (url_in ud)")
  case False
  with assms show ?thesis by (simp add: shorten_url_def)
next
  case valid: True
  show ?thesis
  proof (cases "existing_url (url_in ud) (urls d)")
    case (Some r)
    with assms valid show ?thesis by (simp add: shorten_url_def)
  next
    case None
    show ?thesis
    proof (cases "unique_short_code (custom_code ud) draws (urls d)")
      case n: None
      with assms valid None show ?thesis by (simp add: shorten_url_def)
    next
      case (Some a)
      show ?thesis
      proof (cases a)
        case (Inl err)
        with assms valid None Some show ?thesis by (simp add: shorten_url_def)
      next
        case (Inr c)
        have fresh: "\<not> code_exists c (urls d)"
          using Some Inr unique_short_code_fresh by blast
        show ?thesis
        proof (cases "expiration_date clk (expires_in_days ud)")
          case l: (Inl err)
          with assms valid None Some Inr show ?thesis by (simp add: shorten_url_def)
        next
          case r: (Inr e)
          with assms valid None Some Inr fresh show ?thesis
            by (auto simp: shorten_url_def insert_url_def Let_def)
        qed
      qed
    qed
  qed
qed

lemma quote_safe: "set s \<subseteq> set (ALWAYS_SAFE @ safe) \<Longrightarrow> quote s safe = s"
  by (induction s) (simp_all add: quote_def quoter_def)

lemma redirect_url_ok:
  assumes "schema_ok d" and "r \<in> set (urls d)" and "is_active r" and "\<not> expired clk r"
  shows "fst (redirect_url (short_code r) rq clk d)
           = Inr (RedirectResponse (original_url r) 302)"
proof -
  have "find (\<lambda>x. short_code x = short_code r \<and> is_active x) (urls d) = Some r"
    using assms(1-3) by (rule find_active_code)
  then show ?thesis using assms(4) by (simp add: redirect_url_def Let_def)
qed

lemma shorten_url_returns:
  assumes valid: "is_valid_url ev u"
    and can: "(\<exists>r\<in>set (urls d). original_url r = u \<and> is_active r)
        \<or> ((if cc = None \<or> cc = Some []
             then \<exists>rnd\<in>set draws. \<not> code_exists (generate_short_code 6 rnd) (urls d)
             else \<not> code_exists (the cc) (urls d))
            \<and> expiration_date clk e \<noteq> Inl OverflowError)"
  shows "\<exists>resp d1. shorten_url ev clk draws
            \<lparr>url_in = u, custom_code = cc, expires_in_days = e\<rparr> d = Some (Inr resp, d1)"
proof (cases "existing_url u (urls d)")
  case (Some r)
  with valid show ?thesis by (simp add: shorten_url_def)
next
  case None
  then have "\<not> (\<exists>r\<in>set (urls d). original_url r = u \<and> is_active r)"
    using existing_url_None by blast
  with can have code: "if cc = None \<or> cc = Some []
             then \<exists>rnd\<in>set draws. \<not> code_exists (generate_short_code 6 rnd) (urls d)
             else \<not> code_exists (the cc) (urls d)"
    and ex: "expiration_date clk e \<noteq> Inl OverflowError" by blast+
  have "\<exists>c. unique_short_code cc draws (urls d) = Some (Inr c)"
  proof (cases "cc = None \<or> cc = Some []")
    case True
    with code have "\<exists>rnd\<in>set draws. \<not> code_exists (generate_short_code 6 rnd) (urls d)"
      by simp
    then obtain c where "generate_unique draws (urls d) = Some c"
      using generate_unique_total by blast
    with True show ?thesis by (auto simp: unique_short_code_def)
  next
    case False
    with code have "\<not> code_exists (the cc) (urls d)" by simp
    with False show ?thesis by (auto simp: unique_short_code_def)
  qed
  then obtain c where c: "unique_short_code cc draws (urls d) = Some (Inr c)" by blast
  then have fresh: "\<not> code_exists c (urls d)" by (rule unique_short_code_fresh)
  obtain x where x: "expiration_date clk e = Inr x"
  proof (cases "expiration_date clk e")
    case (Inl err)
    then have "err = OverflowError" by (rule expiration_date_error)
    with Inl ex show ?thesis by simp
  next
    case (Inr x)
    then show ?thesis by (rule that)
  qed
  show ?thesis using valid None c fresh x
    by (simp add: shorten_url_def insert_url_def Let_def)
qed

lemma shorten_sample_page:
  "shorten_url env0 clk0 []
     \<lparr>url_in = ''https://example.com/page'', custom_code = Some ''abc123'',
      expires_in_days = None\<rparr> init_database
   = Some (Inr resp_page, db_page)"
  by (simp add: shorten_url_def is_valid_url_def urlparse_sample_def existing_url_def init_database_def
      unique_short_code_def code_exists_def expiration_date_def insert_url_def
      next_rowid_def new_url_row_def CURRENT_TIMESTAMP_def datetime_now_def clk0_def
      short_url_of_def generate_qr_code_def env0_def qr_sample_def resp_page_def
      db_page_def row_page_def)

lemma shorten_sample_exp:
  "shorten_url env0 clk0 []
     \<lparr>url_in = ''https://example.com/page'', custom_code = Some ''abc123'',
      expires_in_days = Some 1\<rparr> init_database
   = Some (Inr resp_page, db_exp)"
  by (simp add: shorten_url_def is_valid_url_def urlparse_sample_def existing_url_def init_database_def
      unique_short_code_def code_exists_def expiration_date_def insert_url_def
      timedelta_days_def datetime_add_def datetime_min_def datetime_max_def
      next_rowid_def new_url_row_def CURRENT_TIMESTAMP_def datetime_now_def clk0_def
      short_url_of_def generate_qr_code_def env0_def qr_sample_def resp_page_def
      db_exp_def row_exp_def)

lemma schema_ok_init: "schema_ok init_database"
  by (simp add: schema_ok_def init_database_def)

lemma expiration_date_absent: "expiration_date clk None = Inr None"
  by (simp add: expiration_date_def)

lemma expiration_date_given:
  assumes "n \<noteq> 0" and "\<bar>n\<bar> \<le> 999999999"
    and "datetime_min \<le> datetime_now clk + n * 86400000000"
    and "datetime_now clk + n * 86400000000 \<le> datetime_max"
  shows "expiration_date clk (Some n) = Inr (Some (datetime_now clk + n * 86400000000))"
  using assms
  by (simp add: expiration_date_def timedelta_days_def datetime_add_def Let_def)

lemma date_ge_iff: "k * 86400 \<le> t \<longleftrightarrow> k \<le> DATE t"
proof
  assume "k * 86400 \<le> t"
  then have "(k * 86400) div 86400 \<le> t div 86400" by (rule zdiv_mono1) simp
  then show "k \<le> DATE t" by (simp add: DATE_def)
next
  assume "k \<le> DATE t"
  then have "k * 86400 \<le> (t div 86400) * 86400" by (simp add: DATE_def)
  also have "\<dots> \<le> t"
    using div_mult_mod_eq [of t 86400] pos_mod_sign [of 86400 t] by linarith
  finally show "k * 86400 \<le> t" .
qed

lemma date_mono: "s \<le> t \<Longrightarrow> DATE s \<le> DATE t"
  unfolding DATE_def by (rule zdiv_mono1) simp_all

lemma count_list_map_filter:
  "count_list (map f xs) y = length (filter (\<lambda>x. f x = y) xs)"
  by (induction xs) simp_all

lemma distinct_singleton: "distinct xs \<Longrightarrow> set xs = {x} \<Longrightarrow> xs = [x]"
proof (cases xs)
  case Nil
  assume "set xs = {x}"
  with Nil show ?thesis by simp
next
  case (Cons a ys)
  assume d: "distinct xs" and s: "set xs = {x}"
  from s Cons have a: "a = x" by auto
  have "set ys \<subseteq> {x}" using s Cons by auto
  moreover have "x \<notin> set ys" using d Cons a by simp
  ultimately have "ys = []" by (cases ys) auto
  with Cons a show ?thesis by simp
qed

lemma filter_filter_imp:
  "(\<And>x. P x \<Longrightarrow> Q x) \<Longrightarrow> filter P (filter Q xs) = filter P xs"
  by (induction xs) auto

text \<open>The rows inside the window are the rows dated on or after the first date of the window.\<close>

lemma daily_counts_eq:
  "daily_counts clk n rows =
     (let ds = map (\<lambda>e. DATE (clicked_at e))
                 (filter (\<lambda>e. date_now_minus clk n \<le> DATE (clicked_at e)) rows)
      in map (\<lambda>dt. (dt, count_list ds dt)) (sort (remdups ds)))"
  by (simp add: daily_counts_def date_ge_iff)

lemma daily_counts_sorted: "sorted_wrt (<) (map fst (daily_counts clk n rows))"
  by (simp add: daily_counts_eq Let_def comp_def strict_sorted_iff)

lemma daily_counts_entry:
  assumes "(dt, k) \<in> set (daily_counts clk n rows)"
  shows "date_now_minus clk n \<le> dt \<and> 0 < k
         \<and> k = length (filter (\<lambda>e. DATE (clicked_at e) = dt) rows)"
proof -
  let ?W = "filter (\<lambda>e. date_now_minus clk n \<le> DATE (clicked_at e)) rows"
  let ?ds = "map (\<lambda>e. DATE (clicked_at e)) ?W"
  from assms have dt: "dt \<in> set ?ds" and k: "k = count_list ?ds dt"
    by (auto simp: daily_counts_eq Let_def)
  from dt have w: "date_now_minus clk n \<le> dt" by auto
  from dt have "count_list ?ds dt \<noteq> 0" by (simp only: count_list_0_iff not_not)
  then have pos: "0 < k" using k by simp
  have "filter (\<lambda>e. DATE (clicked_at e) = dt) ?W
        = filter (\<lambda>e. DATE (clicked_at e) = dt) rows"
    by (rule filter_filter_imp) (use w in simp)
  then have "k = length (filter (\<lambda>e. DATE (clicked_at e) = dt) rows)"
    using k by (simp only: count_list_map_filter)
  with w pos show ?thesis by simp
qed

lemma daily_counts_complete:
  assumes "e \<in> set rows" and "date_now_minus clk n \<le> DATE (clicked_at e)"
  shows "DATE (clicked_at e) \<in> fst ` set (daily_counts clk n rows)"
proof -
  let ?W = "filter (\<lambda>e. date_now_minus clk n \<le> DATE (clicked_at e)) rows"
  have "e \<in> set ?W" using assms by simp
  then have "DATE (clicked_at e) \<in> (\<lambda>e. DATE (clicked_at e)) ` set ?W"
    by (rule imageI)
  then have "DATE (clicked_at e) \<in> set (map (\<lambda>e. DATE (clicked_at e)) ?W)"
    by (simp only: set_map)
  then show ?thesis by (simp add: daily_counts_eq Let_def image_image)
qed

lemma daily_counts_outside:
  assumes "\<forall>e\<in>set rows. DATE (clicked_at e) < date_now_minus clk n"
  shows "daily_counts clk n rows = []"
proof -
  have "filter (\<lambda>e. date_now_minus clk n \<le> DATE (clicked_at e)) rows = []"
    using assms by (auto simp: filter_empty_conv)
  then show ?thesis by (simp add: daily_counts_eq)
qed

lemma daily_counts_one_date:
  assumes "rows \<noteq> []" and "\<forall>e\<in>set rows. DATE (clicked_at e) = dt"
    and "date_now_minus clk n \<le> dt"
  shows "daily_counts clk n rows = [(dt, length rows)]"
proof -
  let ?W = "filter (\<lambda>e. date_now_minus clk n \<le> DATE (clicked_at e)) rows"
  let ?ds = "map (\<lambda>e. DATE (clicked_at e)) ?W"
  have W: "?W = rows" using assms(2,3) by (simp add: filter_id_conv)
  have "set ?ds = {dt}"
  proof -
    have "set ?ds = (\<lambda>e. DATE (clicked_at e)) ` set rows" using W by simp
    also have "\<dots> = {dt}" using assms(1,2) by (cases rows) auto
    finally show ?thesis .
  qed
  then have "set (remdups ?ds) = {dt}" by simp
  then have r: "remdups ?ds = [dt]" using distinct_remdups by (rule distinct_singleton [rotated])
  have "count_list ?ds dt = length (filter (\<lambda>e. DATE (clicked_at e) = dt) ?W)"
    by (rule count_list_map_filter)
  also have "\<dots> = length rows" using W assms(2) by (simp add: filter_id_conv)
  finally have c: "count_list ?ds dt = length rows" .
  show ?thesis unfolding daily_counts_eq Let_def r using c by simp
qed

text \<open>What one call of a handler does to the tables, and what every run preserves.\<close>

lemma deactivated_append:
  assumes "deactivated c rows" and "\<not> code_exists (short_code row) rows"
  shows "deactivated c (rows @ [row])"
proof -
  have "short_code row \<notin> short_code ` set rows"
    using assms(2) code_exists_iff by blast
  moreover have "c \<in> short_code ` set rows" using assms(1) by (simp add: deactivated_def)
  ultimately have "short_code row \<noteq> c" by blast
  then show ?thesis using assms(1) by (auto simp: deactivated_def)
qed

lemma deactivated_map:
  assumes "deactivated c rows"
    and "\<And>r. short_code (f r) = short_code r"
    and "\<And>r. is_active (f r) \<Longrightarrow> is_active r"
  shows "deactivated c (map f rows)"
proof -
  have "c \<in> short_code ` set (map f rows)"
  proof -
    from assms(1) obtain r where "r \<in> set rows" "short_code r = c"
      by (auto simp: deactivated_def)
    then have "f r \<in> set (map f rows)" "short_code (f r) = c" using assms(2) by simp_all
    then show ?thesis by blast
  qed
  moreover have "\<forall>x\<in>set (map f rows). short_code x = c \<longrightarrow> \<not> is_active x"
  proof (intro ballI impI)
    fix x assume "x \<in> set (map f rows)" and xc: "short_code x = c"
    then obtain r where r: "r \<in> set rows" "x = f r" by auto
    with xc assms(2) have "short_code r = c" by simp
    with r(1) assms(1) have "\<not> is_active r" by (simp add: deactivated_def)
    with assms(3) r(2) show "\<not> is_active x" by blast
  qed
  ultimately show ?thesis by (simp only: deactivated_def)
qed


lemma shorten_url_step:
  assumes "shorten_url ev clk draws ud d = Some (res, d')"
  shows "analytics d' = analytics d
     \<and> (urls d' = urls d
        \<or> (\<exists>row. urls d' = urls d @ [row] \<and> \<not> code_exists (short_code row) (urls d)))"
proof (cases res)
  case (Inl err)
  with assms have "d' = d"
    by (auto simp: shorten_url_def insert_url_def Let_def
        split: if_splits option.splits sum.splits)
  then show ?thesis by simp
next
  case (Inr resp)
  with assms have "shorten_url ev clk draws ud d = Some (Inr resp, d')" by simp
  from shorten_url_Inr [OF this]
  consider "d' = d"
    | c e where "unique_short_code (custom_code ud) draws (urls d) = Some (Inr c)"
        "d' = d\<lparr>urls := urls d @
                 [new_url_row clk (next_rowid (urls_seq d) (map url_id (urls d)))
                    (url_in ud) c e],
               urls_seq := next_rowid (urls_seq d) (map url_id (urls d))\<rparr>"
    by blast
  then show ?thesis
  proof cases
    case 1
    then show ?thesis by simp
  next
    case 2
    have "\<not> code_exists c (urls d)" using 2(1) by (rule unique_short_code_fresh)
    then show ?thesis unfolding 2(2) by (simp add: new_url_row_def)
  qed
qed

lemma redirect_url_step:
  assumes "redirect_url c' rq clk d = (res, d')"
  shows "set (analytics d) \<subseteq> set (analytics d')
     \<and> (urls d' = urls d
        \<or> urls d' = map (\<lambda>r. if short_code r = c' then r\<lparr>clicks := clicks r + 1\<rparr> else r)
                       (urls d))"
  using assms
  by (auto simp: redirect_url_def insert_analytics_def Let_def
      split: option.splits if_splits)

lemma delete_link_step:
  assumes "delete_link c' d = (res, d')"
  shows "analytics d' = analytics d
     \<and> (urls d' = urls d
        \<or> urls d' = map (\<lambda>r. if short_code r = c' then r\<lparr>is_active := False\<rparr> else r)
                       (urls d))"
  using assms by (auto simp: delete_link_def Let_def split: if_splits)

lemma reach_deactivated:
  assumes "reach ev d d'" and "deactivated c (urls d)"
  shows "deactivated c (urls d') \<and> set (analytics d) \<subseteq> set (analytics d')"
  using assms
proof (induction rule: reach.induct)
  case reach_refl
  then show ?case by simp
next
  case (reach_shorten d1 clk draws url_data res d2)
  then have ih: "deactivated c (urls d1)" "set (analytics d) \<subseteq> set (analytics d1)"
    by simp_all
  from shorten_url_step [OF reach_shorten.hyps(2)]
  have a: "analytics d2 = analytics d1"
    and u: "urls d2 = urls d1
        \<or> (\<exists>row. urls d2 = urls d1 @ [row] \<and> \<not> code_exists (short_code row) (urls d1))"
    by blast+
  from u ih(1) have "deactivated c (urls d2)" using deactivated_append by auto
  with a ih(2) show ?case by simp
next
  case (reach_redirect d1 c' rq clk res' d2)
  then have ih: "deactivated c (urls d1)" "set (analytics d) \<subseteq> set (analytics d1)"
    by simp_all
  from redirect_url_step [OF reach_redirect.hyps(2)]
  have a: "set (analytics d1) \<subseteq> set (analytics d2)"
    and u: "urls d2 = urls d1
        \<or> urls d2 = map (\<lambda>r. if short_code r = c' then r\<lparr>clicks := clicks r + 1\<rparr> else r)
                       (urls d1)"
    by blast+
  have "deactivated c (map (\<lambda>r. if short_code r = c' then r\<lparr>clicks := clicks r + 1\<rparr> else r)
                       (urls d1))"
    using ih(1) by (rule deactivated_map) (simp_all split: if_splits)
  with u ih(1) have "deactivated c (urls d2)" by auto
  with a ih(2) show ?case by blast
next
  case (reach_delete d1 c' res'' d2)
  then have ih: "deactivated c (urls d1)" "set (analytics d) \<subseteq> set (analytics d1)"
    by simp_all
  from delete_link_step [OF reach_delete.hyps(2)]
  have a: "analytics d2 = analytics d1"
    and u: "urls d2 = urls d1
        \<or> urls d2 = map (\<lambda>r. if short_code r = c' then r\<lparr>is_active := False\<rparr> else r)
                       (urls d1)"
    by blast+
  have "deactivated c (map (\<lambda>r. if short_code r = c' then r\<lparr>is_active := False\<rparr> else r)
                       (urls d1))"
    using ih(1) by (rule deactivated_map) (simp_all split: if_splits)
  with u ih(1) have "deactivated c (urls d2)" by auto
  with a ih(2) show ?case by simp
qed

lemma deactivate_codes:
  "short_code ` set (map (\<lambda>r. if short_code r = c then r\<lparr>is_active := False\<rparr> else r) rows)
     = short_code ` set rows"
  by (induction rows) auto

lemma deactivate_inactive:
  assumes "x \<in> set (map (\<lambda>r. if short_code r = c then r\<lparr>is_active := False\<rparr> else r) rows)"
    and "is_active x"
  shows "short_code x \<noteq> c"
proof -
  from assms(1)
  have "x \<in> (\<lambda>r. if short_code r = c then r\<lparr>is_active := False\<rparr> else r) ` set rows"
    by (simp only: set_map)
  then obtain y where y: "x = (if short_code y = c then y\<lparr>is_active := False\<rparr> else y)"
    by (rule imageE)
  show ?thesis
  proof (cases "short_code y = c")
    case True
    have "x = y\<lparr>is_active := False\<rparr>" unfolding y using True by (rule if_P)
    then have "\<not> is_active x" by simp
    with assms(2) show ?thesis by (rule notE [rotated])
  next
    case False
    have "x = y" unfolding y using False by (rule if_not_P)
    with False show ?thesis by blast
  qed
qed

lemma delete_link_deactivates:
  assumes "c \<in> short_code ` set (urls d)"
  shows "fst (delete_link c d) = Inr ''Link deactivated successfully''
     \<and> deactivated c (urls (snd (delete_link c d)))
     \<and> analytics (snd (delete_link c d)) = analytics d"
proof -
  have "filter (\<lambda>r. short_code r = c) (urls d) \<noteq> []"
    using assms unfolding filter_empty_conv by blast
  then have eq: "delete_link c d = (Inr ''Link deactivated successfully'',
       d\<lparr>urls := map (\<lambda>r. if short_code r = c then r\<lparr>is_active := False\<rparr> else r)
                     (urls d)\<rparr>)"
    by (simp add: delete_link_def Let_def)
  have "c \<in> short_code ` set (map (\<lambda>r. if short_code r = c then r\<lparr>is_active := False\<rparr> else r)
                     (urls d))"
    using assms by (simp only: deactivate_codes)
  moreover have "\<forall>x\<in>set (map (\<lambda>r. if short_code r = c then r\<lparr>is_active := False\<rparr> else r)
                     (urls d)). short_code x = c \<longrightarrow> \<not> is_active x"
    using deactivate_inactive by blast
  ultimately have "deactivated c (map (\<lambda>r. if short_code r = c then r\<lparr>is_active := False\<rparr> else r)
                     (urls d))"
    by (simp only: deactivated_def)
  with eq show ?thesis by simp
qed

lemma redirect_url_deactivated:
  assumes "deactivated c (urls d)"
  shows "redirect_url c rq clk d = (Inl NotFoundError, d)"
proof -
  have "\<forall>x\<in>set (urls d). \<not> (short_code x = c \<and> is_active x)"
    using assms by (auto simp: deactivated_def)
  then have "find (\<lambda>r. short_code r = c \<and> is_active r) (urls d) = None"
    unfolding find_None_iff by blast
  then show ?thesis by (simp add: redirect_url_def)
qed

lemma get_all_links_codes:
  "link_short_code ` set (get_all_links ev d) = short_code ` {r \<in> set (urls d). is_active r}"
  by (auto simp: get_all_links_def link_of_def image_iff)

lemma get_url_analytics_clicks:
  assumes "c \<in> short_code ` set (urls d)"
  shows "\<exists>info cl. get_url_analytics c d = Inr (info, cl)
           \<and> set cl = click_of ` {e \<in> set (analytics d). click_short_code e = c}"
proof -
  have "find (\<lambda>r. short_code r = c) (urls d) \<noteq> None"
    using assms unfolding find_None_iff by blast
  then obtain r where "find (\<lambda>r. short_code r = c) (urls d) = Some r" by blast
  then show ?thesis by (simp add: get_url_analytics_def)
qed

lemma delete_sample: "delete_link ''abc123'' db_today
    = (Inr ''Link deactivated successfully'', db_off)"
  by (simp add: delete_link_def db_today_def db_off_def row_page_def row_page_off_def)

lemma shorten_sample_again:
  "shorten_url env0 clk2 []
     \<lparr>url_in = ''https://example.com/page'', custom_code = Some ''xyz789'',
      expires_in_days = None\<rparr> db_off
   = Some (Inr resp_again, db_again)"
  by (simp add: shorten_url_def is_valid_url_def urlparse_sample_def existing_url_def
      db_off_def row_page_off_def row_page_def
      unique_short_code_def code_exists_def expiration_date_def insert_url_def
      next_rowid_def new_url_row_def CURRENT_TIMESTAMP_def datetime_now_def clk2_def
      short_url_of_def generate_qr_code_def env0_def qr_sample_def resp_again_def
      db_again_def row_again_def)

text \<open>Every run of the service keeps the constraints of the schema.\<close>

lemma shorten_url_schema_ok:
  assumes "shorten_url ev clk draws ud d = Some (res, d')" and "schema_ok d"
  shows "schema_ok d'"
proof (cases res)
  case (Inl err)
  with assms(1) have "d' = d"
    by (auto simp: shorten_url_def insert_url_def Let_def
        split: if_splits option.splits sum.splits)
  with assms(2) show ?thesis by simp
next
  case (Inr resp)
  with assms(1) have "shorten_url ev clk draws ud d = Some (Inr resp, d')" by simp
  from shorten_url_Inr [OF this]
  consider "d' = d"
    | c e where "unique_short_code (custom_code ud) draws (urls d) = Some (Inr c)"
        "d' = d\<lparr>urls := urls d @
                 [new_url_row clk (next_rowid (urls_seq d) (map url_id (urls d)))
                    (url_in ud) c e],
               urls_seq := next_rowid (urls_seq d) (map url_id (urls d))\<rparr>"
    by blast
  then show ?thesis
  proof cases
    case 1
    with assms(2) show ?thesis by simp
  next
    case 2
    have "\<not> code_exists c (urls d)" using 2(1) by (rule unique_short_code_fresh)
    with assms(2) show ?thesis unfolding 2(2) by (rule schema_ok_append)
  qed
qed

lemma redirect_url_schema_ok:
  assumes "redirect_url c rq clk d = (res, d')" and "schema_ok d"
  shows "schema_ok d'"
proof -
  have m: "map short_code (map (\<lambda>r. if short_code r = c then r\<lparr>clicks := clicks r + 1\<rparr> else r) rows)
        = map short_code rows"
    "map url_id (map (\<lambda>r. if short_code r = c then r\<lparr>clicks := clicks r + 1\<rparr> else r) rows)
        = map url_id rows" for rows
    by (induction rows) simp_all
  from assms(1) have "d' = d \<or> (urls d' =
      map (\<lambda>r. if short_code r = c then r\<lparr>clicks := clicks r + 1\<rparr> else r) (urls d))"
    by (auto simp: redirect_url_def insert_analytics_def Let_def
        split: option.splits if_splits)
  then show ?thesis
  proof
    assume "d' = d"
    with assms(2) show ?thesis by simp
  next
    assume u: "urls d' =
      map (\<lambda>r. if short_code r = c then r\<lparr>clicks := clicks r + 1\<rparr> else r) (urls d)"
    have a: "map short_code (urls d') = map short_code (urls d)" unfolding u by (rule m(1))
    have b: "map url_id (urls d') = map url_id (urls d)" unfolding u by (rule m(2))
    from assms(2) show ?thesis by (simp only: schema_ok_def a b)
  qed
qed

lemma delete_link_schema_ok:
  assumes "delete_link c d = (res, d')" and "schema_ok d"
  shows "schema_ok d'"
proof -
  have m: "map short_code (map (\<lambda>r. if short_code r = c then r\<lparr>is_active := False\<rparr> else r) rows)
        = map short_code rows"
    "map url_id (map (\<lambda>r. if short_code r = c then r\<lparr>is_active := False\<rparr> else r) rows)
        = map url_id rows" for rows
    by (induction rows) simp_all
  from delete_link_step [OF assms(1)]
  have "urls d' = urls d
        \<or> urls d' = map (\<lambda>r. if short_code r = c then r\<lparr>is_active := False\<rparr> else r)
                       (urls d)"
    by blast
  then show ?thesis
  proof
    assume "urls d' = urls d"
    with assms(2) show ?thesis by (simp add: schema_ok_def)
  next
    assume u: "urls d' = map (\<lambda>r. if short_code r = c then r\<lparr>is_active := False\<rparr> else r)
                       (urls d)"
    have a: "map short_code (urls d') = map short_code (urls d)" unfolding u by (rule m(1))
    have b: "map url_id (urls d') = map url_id (urls d)" unfolding u by (rule m(2))
    from assms(2) show ?thesis by (simp only: schema_ok_def a b)
  qed
qed

lemma reach_schema_ok:
  assumes "reach ev d d'" and "schema_ok d"
  shows "schema_ok d'"
  using assms
proof (induction rule: reach.induct)
  case reach_refl
  then show ?case by simp
next
  case (reach_shorten d1 clk draws url_data res d2)
  then have "schema_ok d1" by simp
  with reach_shorten.hyps(2) show ?case by (rule shorten_url_schema_ok)
next
  case (reach_redirect d1 c rq clk res' d2)
  then have "schema_ok d1" by simp
  with reach_redirect.hyps(2) show ?case by (rule redirect_url_schema_ok)
next
  case (reach_delete d1 c res'' d2)
  then have "schema_ok d1" by simp
  with reach_delete.hyps(2) show ?case by (rule delete_link_schema_ok)
qed

lemma shorten_sample_space:
  "shorten_url env0 clk0 []
     \<lparr>url_in = ''http://example.com/a b'', custom_code = Some ''space1'',
      expires_in_days = None\<rparr> init_database
   = Some (Inr resp_space, db_space)"
  by (simp add: shorten_url_def is_valid_url_def urlparse_sample_def existing_url_def
      init_database_def unique_short_code_def code_exists_def expiration_date_def
      insert_url_def next_rowid_def new_url_row_def CURRENT_TIMESTAMP_def
      datetime_now_def clk0_def short_url_of_def generate_qr_code_def env0_def
      qr_sample_def resp_space_def db_space_def row_space_def)

section \<open>Shortening, then resolving\<close>

text \<open>
  Claim C1, as stated: for every valid URL, \<open>shorten_url\<close> and then \<open>redirect_url\<close>
  on the code it returned yields exactly the original URL. Two calls show that it does
  not. \<open>shorten_url\<close> returns an active Link without looking at its expiration: a
  Link made with one day until expiration is returned again two days later, and
  \<open>redirect_url\<close> on its code then fails with \<open>ExpiredError\<close>. And the redirect
  carries the URL percent-encoded: for the valid URL \<^verbatim>\<open>http://example.com/a b\<close> its
  location is \<^verbatim>\<open>http://example.com/a%20b\<close>.
\<close>

theorem shorten_then_resolve_counterexample:
  "is_valid_url env0 ''https://example.com/page''
   \<and> shorten_url env0 clk0 []
        \<lparr>url_in = ''https://example.com/page'', custom_code = Some ''abc123'',
         expires_in_days = Some 1\<rparr> init_database
      = Some (Inr resp_page, db_exp)
   \<and> shorten_url env0 clk2 []
        \<lparr>url_in = ''https://example.com/page'', custom_code = None,
         expires_in_days = None\<rparr> db_exp
      = Some (Inr (response_of_row env0 row_exp), db_exp)
   \<and> resp_short_code (response_of_row env0 row_exp) = ''abc123''
   \<and> redirect_url ''abc123'' rq0 clk2 db_exp = (Inl ExpiredError, db_exp)
   \<and> is_valid_url env0 ''http://example.com/a b''
   \<and> shorten_url env0 clk0 []
        \<lparr>url_in = ''http://example.com/a b'', custom_code = Some ''space1'',
         expires_in_days = None\<rparr> init_database
      = Some (Inr resp_space, db_space)
   \<and> resp_short_code resp_space = ''space1''
   \<and> fst (redirect_url ''space1'' rq0 clk0 db_space)
      = Inr \<lparr>status_code = 302, location = ''http://example.com/a%20b''\<rparr>
   \<and> ''http://example.com/a%20b'' \<noteq> ''http://example.com/a b''"
proof -
  have "shorten_url env0 clk2 []
        \<lparr>url_in = ''https://example.com/page'', custom_code = None,
         expires_in_days = None\<rparr> db_exp
      = Some (Inr (response_of_row env0 row_exp), db_exp)"
    by (simp add: shorten_url_def is_valid_url_def urlparse_sample_def env0_def
        existing_url_def db_exp_def row_exp_def)
  moreover have "resp_short_code (response_of_row env0 row_exp) = ''abc123''"
    by (simp add: response_of_row_def row_exp_def)
  moreover have "redirect_url ''abc123'' rq0 clk2 db_exp = (Inl ExpiredError, db_exp)"
    by (simp add: redirect_url_def db_exp_def row_exp_def expired_def datetime_now_def
        clk2_def)
  moreover have "is_valid_url env0 ''http://example.com/a b''"
    by (simp add: is_valid_url_def env0_def urlparse_sample_def)
  moreover have "resp_short_code resp_space = ''space1''" by (simp add: resp_space_def)
  moreover have "fst (redirect_url ''space1'' rq0 clk0 db_space)
      = Inr \<lparr>status_code = 302, location = ''http://example.com/a%20b''\<rparr>"
    by (simp add: redirect_url_def db_space_def row_space_def expired_def Let_def
        RedirectResponse_def quote_def quoter_def ALWAYS_SAFE_def redirect_safe_def
        hexdigit_def)
  moreover have "''http://example.com/a%20b'' \<noteq> ''http://example.com/a b''" by simp
  ultimately show ?thesis
    using valid_sample shorten_sample_exp shorten_sample_space by blast
qed

text \<open>
  Claim C1, amended: for every valid URL, \<open>shorten_url\<close> returns a Link whenever an
  active Link with that URL exists, or the custom code (or, without one, the code of
  some run of the generator) is not taken and the expiration date can be represented;
  and whenever \<open>shorten_url\<close> has returned a Link, \<open>redirect_url\<close> on the returned
  code, at a time that is not later than the expiration of that Link if it has one,
  yields a redirect with status 302 to the original URL percent-encoded by
  \<open>quote\<close>, which is exactly the original URL when every byte of the URL is a letter,
  a digit or one of \<^verbatim>\<open>_.-~:/%#?=@[]!$&'()*+,;\<close>.
\<close>

theorem shorten_then_resolve:
  assumes ok: "schema_ok d" and valid: "is_valid_url ev u"
  shows "(((\<exists>r\<in>set (urls d). original_url r = u \<and> is_active r)
           \<or> ((if cc = None \<or> cc = Some []
                then \<exists>rnd\<in>set draws. \<not> code_exists (generate_short_code 6 rnd) (urls d)
                else \<not> code_exists (the cc) (urls d))
               \<and> expiration_date clk e \<noteq> Inl OverflowError))
          \<longrightarrow> (\<exists>resp d1. shorten_url ev clk draws
                   \<lparr>url_in = u, custom_code = cc, expires_in_days = e\<rparr> d
                 = Some (Inr resp, d1)))
       \<and> (\<forall>resp d1.
            shorten_url ev clk draws \<lparr>url_in = u, custom_code = cc, expires_in_days = e\<rparr> d
              = Some (Inr resp, d1)
            \<and> (\<forall>r\<in>set (urls d1). short_code r = resp_short_code resp
                  \<longrightarrow> (case expires_at r of None \<Rightarrow> True
                       | Some t \<Rightarrow> datetime_now clk' \<le> t))
            \<longrightarrow> (\<exists>rr. fst (redirect_url (resp_short_code resp) rq clk' d1) = Inr rr
                  \<and> status_code rr = 302
                  \<and> location rr = quote u redirect_safe
                  \<and> (set u \<subseteq> set (ALWAYS_SAFE @ redirect_safe) \<longrightarrow> location rr = u)))"
proof (intro conjI impI allI)
  assume "(\<exists>r\<in>set (urls d). original_url r = u \<and> is_active r)
           \<or> ((if cc = None \<or> cc = Some []
                then \<exists>rnd\<in>set draws. \<not> code_exists (generate_short_code 6 rnd) (urls d)
                else \<not> code_exists (the cc) (urls d))
               \<and> expiration_date clk e \<noteq> Inl OverflowError)"
  with valid show "\<exists>resp d1. shorten_url ev clk draws
                   \<lparr>url_in = u, custom_code = cc, expires_in_days = e\<rparr> d
                 = Some (Inr resp, d1)"
    by (rule shorten_url_returns)
next
  fix resp d1
  let ?ud = "\<lparr>url_in = u, custom_code = cc, expires_in_days = e\<rparr>"
  assume a: "shorten_url ev clk draws ?ud d = Some (Inr resp, d1)
     \<and> (\<forall>r\<in>set (urls d1). short_code r = resp_short_code resp
           \<longrightarrow> (case expires_at r of None \<Rightarrow> True | Some t \<Rightarrow> datetime_now clk' \<le> t))"
  then have ret: "shorten_url ev clk draws ?ud d = Some (Inr resp, d1)"
    and live: "\<forall>r\<in>set (urls d1). short_code r = resp_short_code resp
           \<longrightarrow> (case expires_at r of None \<Rightarrow> True | Some t \<Rightarrow> datetime_now clk' \<le> t)"
    by blast+
  have "\<exists>r. schema_ok d1 \<and> r \<in> set (urls d1) \<and> is_active r \<and> original_url r = u
          \<and> short_code r = resp_short_code resp"
  proof -
    from shorten_url_Inr [OF ret]
    consider r where "existing_url u (urls d) = Some r" "resp = response_of_row ev r" "d1 = d"
      | c x where "unique_short_code cc draws (urls d) = Some (Inr c)"
          "resp_short_code resp = c"
          "d1 = d\<lparr>urls := urls d @
                       [new_url_row clk (next_rowid (urls_seq d) (map url_id (urls d))) u c x],
                   urls_seq := next_rowid (urls_seq d) (map url_id (urls d))\<rparr>"
      by auto
    then show ?thesis
    proof cases
      case 1
      from 1(1) have "r \<in> set (urls d) \<and> original_url r = u \<and> is_active r"
        by (rule existing_url_Some)
      moreover have "short_code r = resp_short_code resp"
        using 1(2) by (simp add: response_of_row_def)
      ultimately show ?thesis using ok 1(3) by blast
    next
      case 2
      let ?row = "new_url_row clk (next_rowid (urls_seq d) (map url_id (urls d))) u c x"
      have "\<not> code_exists c (urls d)" using 2(1) by (rule unique_short_code_fresh)
      with ok have "schema_ok d1" unfolding 2(3) by (rule schema_ok_append)
      moreover have "?row \<in> set (urls d1)" unfolding 2(3) by simp
      moreover have "is_active ?row \<and> original_url ?row = u \<and> short_code ?row = c"
        by (simp add: new_url_row_def)
      ultimately show ?thesis using 2(2) by blast
    qed
  qed
  then obtain r where r: "schema_ok d1" "r \<in> set (urls d1)" "is_active r"
    "original_url r = u" "short_code r = resp_short_code resp" by blast
  from live r(2,5)
  have "case expires_at r of None \<Rightarrow> True | Some t \<Rightarrow> datetime_now clk' \<le> t" by blast
  then have "\<not> expired clk' r" by (simp add: expired_def split: option.splits)
  with r(1-3) have "fst (redirect_url (short_code r) rq clk' d1)
      = Inr (RedirectResponse (original_url r) 302)"
    by (rule redirect_url_ok)
  then have res: "fst (redirect_url (resp_short_code resp) rq clk' d1)
      = Inr (RedirectResponse u 302)"
    using r(4,5) by simp
  have "status_code (RedirectResponse u 302) = 302"
    and "location (RedirectResponse u 302) = quote u redirect_safe"
    by (simp_all add: RedirectResponse_def)
  moreover have "set u \<subseteq> set (ALWAYS_SAFE @ redirect_safe)
      \<longrightarrow> location (RedirectResponse u 302) = u"
    by (simp add: RedirectResponse_def quote_safe)
  ultimately show "\<exists>rr. fst (redirect_url (resp_short_code resp) rq clk' d1) = Inr rr
                  \<and> status_code rr = 302
                  \<and> location rr = quote u redirect_safe
                  \<and> (set u \<subseteq> set (ALWAYS_SAFE @ redirect_safe) \<longrightarrow> location rr = u)"
    using res by blast
qed

theorem shorten_then_resolve_witness:
  "schema_ok init_database \<and> is_valid_url env0 ''https://example.com/page''
   \<and> \<not> code_exists ''abc123'' (urls init_database)
   \<and> expiration_date clk0 (Some 1) \<noteq> Inl OverflowError
   \<and> shorten_url env0 clk0 []
        \<lparr>url_in = ''https://example.com/page'', custom_code = Some ''abc123'',
         expires_in_days = Some 1\<rparr> init_database
      = Some (Inr resp_page, db_exp)
   \<and> resp_short_code resp_page = ''abc123''
   \<and> urls db_exp = [row_exp] \<and> expires_at row_exp = Some 1700086400000000
   \<and> datetime_now clk0 \<le> 1700086400000000
   \<and> set ''https://example.com/page'' \<subseteq> set (ALWAYS_SAFE @ redirect_safe)
   \<and> fst (redirect_url ''abc123'' rq0 clk0 db_exp)
      = Inr \<lparr>status_code = 302, location = ''https://example.com/page''\<rparr>"
proof -
  let ?ud = "\<lparr>url_in = ''https://example.com/page'', custom_code = Some ''abc123'',
         expires_in_days = Some 1\<rparr>"
  have a: "\<not> code_exists ''abc123'' (urls init_database)"
    by (simp add: code_exists_def init_database_def)
  have b: "expiration_date clk0 (Some 1) \<noteq> Inl OverflowError"
    by (simp add: expiration_date_def timedelta_days_def datetime_add_def
        datetime_min_def datetime_max_def datetime_now_def clk0_def)
  have code: "resp_short_code resp_page = ''abc123''" by (simp add: resp_page_def)
  have rows: "urls db_exp = [row_exp]" by (simp add: db_exp_def)
  have ex: "expires_at row_exp = Some 1700086400000000" by (simp add: row_exp_def)
  have now: "datetime_now clk0 \<le> 1700086400000000" by (simp add: datetime_now_def clk0_def)
  have live: "\<forall>r\<in>set (urls db_exp). short_code r = resp_short_code resp_page
         \<longrightarrow> (case expires_at r of None \<Rightarrow> True | Some t \<Rightarrow> datetime_now clk0 \<le> t)"
    using now by (simp add: rows ex)
  have safe: "set ''https://example.com/page'' \<subseteq> set (ALWAYS_SAFE @ redirect_safe)"
    by (simp add: ALWAYS_SAFE_def redirect_safe_def)
  note inst = shorten_then_resolve [where cc = "Some ''abc123''" and draws = "[]"
      and clk = clk0 and e = "Some 1" and clk' = clk0 and rq = rq0,
      OF schema_ok_init valid_sample]
  from inst a b have "\<exists>resp d1. shorten_url env0 clk0 [] ?ud init_database = Some (Inr resp, d1)"
    by simp
  from inst shorten_sample_exp live
  obtain rr where rr: "fst (redirect_url (resp_short_code resp_page) rq0 clk0 db_exp) = Inr rr"
    "status_code rr = 302"
    "set ''https://example.com/page'' \<subseteq> set (ALWAYS_SAFE @ redirect_safe)
       \<longrightarrow> location rr = ''https://example.com/page''"
    by blast
  from rr(3) safe have "location rr = ''https://example.com/page''" by blast
  with rr(2) have "rr = \<lparr>status_code = 302, location = ''https://example.com/page''\<rparr>"
    by simp
  with rr(1) code have "fst (redirect_url ''abc123'' rq0 clk0 db_exp)
      = Inr \<lparr>status_code = 302, location = ''https://example.com/page''\<rparr>"
    by simp
  then show ?thesis
    using schema_ok_init valid_sample a b shorten_sample_exp code rows ex now safe
    by blast
qed

section \<open>Shortening a URL that is already shortened\<close>

text \<open>
  Claim C2. In every state in which an active Link with a given original URL exists,
  \<open>shorten_url\<close> called again with that URL and no custom code returns an existing
  active Link with that URL (that Link, when it is the only one): the response carries
  the identity, the short code, the creation timestamp and the click counter of that
  row, the URL, and the short URL and QR code made from that short code; and the
  database it leaves is the database it found, so no row is created and no click
  counter changes. The URL is valid, as the URL of every Link that \<open>shorten_url\<close> has
  created is.
\<close>

theorem shorten_url_reuse:
  assumes "is_valid_url ev u" and "r0 \<in> set (urls d)" and "original_url r0 = u"
    and "is_active r0"
  shows "\<exists>r\<in>set (urls d). \<exists>resp. original_url r = u \<and> is_active r
           \<and> shorten_url ev clk draws
                \<lparr>url_in = u, custom_code = None, expires_in_days = e\<rparr> d
              = Some (Inr resp, d)
           \<and> resp_id resp = url_id r
           \<and> resp_original_url resp = u
           \<and> resp_short_code resp = short_code r
           \<and> resp_short_url resp = BASE_URL ev @ ''/'' @ short_code r
           \<and> resp_created_at resp = SqlText (created_at r)
           \<and> resp_clicks resp = clicks r
           \<and> resp_qr_code resp
               = ''data:image/png;base64,''
                 @ qr_png_base64 ev (BASE_URL ev @ ''/'' @ short_code r)
           \<and> ((\<forall>x\<in>set (urls d). original_url x = u \<and> is_active x \<longrightarrow> x = r0)
                \<longrightarrow> r = r0)"
proof -
  have "existing_url u (urls d) \<noteq> None"
    using assms(2-4) existing_url_None [of u "urls d"] by blast
  then obtain r where r: "existing_url u (urls d) = Some r" by blast
  then have p: "r \<in> set (urls d) \<and> original_url r = u \<and> is_active r"
    by (rule existing_url_Some)
  let ?resp = "response_of_row ev r"
  have ret: "shorten_url ev clk draws
      \<lparr>url_in = u, custom_code = None, expires_in_days = e\<rparr> d = Some (Inr ?resp, d)"
    using assms(1) r by (simp add: shorten_url_def)
  have f: "resp_id ?resp = url_id r \<and> resp_original_url ?resp = u
      \<and> resp_short_code ?resp = short_code r
      \<and> resp_short_url ?resp = BASE_URL ev @ ''/'' @ short_code r
      \<and> resp_created_at ?resp = SqlText (created_at r)
      \<and> resp_clicks ?resp = clicks r
      \<and> resp_qr_code ?resp
          = ''data:image/png;base64,''
            @ qr_png_base64 ev (BASE_URL ev @ ''/'' @ short_code r)"
    using p by (simp add: response_of_row_def short_url_of_def generate_qr_code_def)
  from p ret f show ?thesis by blast
qed

theorem shorten_url_reuse_witness:
  "is_valid_url env0 ''https://example.com/page'' \<and> row_page \<in> set (urls db_page)
   \<and> original_url row_page = ''https://example.com/page'' \<and> is_active row_page
   \<and> urls db_page = [row_page]
   \<and> url_id row_page = 1 \<and> short_code row_page = ''abc123''
   \<and> created_at row_page = 1700000000 \<and> clicks row_page = 0
   \<and> shorten_url env0 clk2 []
        \<lparr>url_in = ''https://example.com/page'', custom_code = None,
         expires_in_days = None\<rparr> db_page
      = Some (Inr \<lparr>resp_id = 1, resp_original_url = ''https://example.com/page'',
                   resp_short_code = ''abc123'',
                   resp_short_url = ''http://localhost:5001/abc123'',
                   resp_created_at = SqlText 1700000000, resp_clicks = 0,
                   resp_qr_code = ''data:image/png;base64,iVBORw0KGgo=''\<rparr>,
              db_page)"
proof -
  have a: "row_page \<in> set (urls db_page)" by (simp add: db_page_def)
  have b: "original_url row_page = ''https://example.com/page''" by (simp add: row_page_def)
  have c: "is_active row_page" by (simp add: row_page_def)
  have rows: "urls db_page = [row_page]" by (simp add: db_page_def)
  have fields: "url_id row_page = 1 \<and> short_code row_page = ''abc123''
      \<and> created_at row_page = 1700000000 \<and> clicks row_page = 0"
    by (simp add: row_page_def)
  have only: "\<forall>x\<in>set (urls db_page).
      original_url x = ''https://example.com/page'' \<and> is_active x \<longrightarrow> x = row_page"
    by (simp add: db_page_def)
  from shorten_url_reuse [OF valid_sample a b c, of clk2 "[]" None] only
  obtain resp where ret: "shorten_url env0 clk2 []
        \<lparr>url_in = ''https://example.com/page'', custom_code = None,
         expires_in_days = None\<rparr> db_page = Some (Inr resp, db_page)"
    and f: "resp_id resp = url_id row_page"
      "resp_original_url resp = ''https://example.com/page''"
      "resp_short_code resp = short_code row_page"
      "resp_short_url resp = BASE_URL env0 @ ''/'' @ short_code row_page"
      "resp_created_at resp = SqlText (created_at row_page)"
      "resp_clicks resp = clicks row_page"
      "resp_qr_code resp
         = ''data:image/png;base64,''
           @ qr_png_base64 env0 (BASE_URL env0 @ ''/'' @ short_code row_page)"
    by blast
  have "resp = \<lparr>resp_id = 1, resp_original_url = ''https://example.com/page'',
                   resp_short_code = ''abc123'',
                   resp_short_url = ''http://localhost:5001/abc123'',
                   resp_created_at = SqlText 1700000000, resp_clicks = 0,
                   resp_qr_code = ''data:image/png;base64,iVBORw0KGgo=''\<rparr>"
    using f by (simp add: row_page_def env0_def qr_sample_def)
  with ret valid_sample a b c rows fields show ?thesis by blast
qed

section \<open>Resolving an expired code\<close>

text \<open>
  Claim C3. For every active Link whose expiration is present and strictly earlier than
  the current local time, \<open>redirect_url\<close> on its code fails with \<open>ExpiredError\<close>
  (status 410), which is not \<open>NotFoundError\<close> (status 404), and the database it leaves
  is the database it found: no click counter is incremented and no click event is
  recorded.
\<close>

theorem redirect_url_expired:
  assumes "schema_ok d" and "r \<in> set (urls d)" and "is_active r"
    and "expires_at r = Some t" and "t < datetime_now clk"
  shows "redirect_url (short_code r) rq clk d = (Inl ExpiredError, d)
         \<and> ExpiredError \<noteq> NotFoundError"
proof -
  have "find (\<lambda>x. short_code x = short_code r \<and> is_active x) (urls d) = Some r"
    using assms(1-3) by (rule find_active_code)
  moreover have "expired clk r" using assms(4,5) by (simp add: expired_def)
  ultimately have "redirect_url (short_code r) rq clk d = (Inl ExpiredError, d)"
    by (simp add: redirect_url_def)
  moreover have "ExpiredError \<noteq> NotFoundError"
    by (simp add: ExpiredError_def NotFoundError_def)
  ultimately show ?thesis by simp
qed

theorem redirect_url_expired_witness:
  "schema_ok db_three \<and> row_promo \<in> set (urls db_three) \<and> is_active row_promo
   \<and> expires_at row_promo = Some 1700086400000000
   \<and> 1700086400000000 < datetime_now clk2
   \<and> redirect_url ''promo1'' rq0 clk2 db_three = (Inl ExpiredError, db_three)
   \<and> ExpiredError \<noteq> NotFoundError"
proof -
  have h2: "row_promo \<in> set (urls db_three)" by (simp add: db_three_def)
  have h3: "is_active row_promo" by (simp add: row_promo_def)
  have h4: "expires_at row_promo = Some 1700086400000000" by (simp add: row_promo_def)
  have h5: "1700086400000000 < datetime_now clk2" by (simp add: datetime_now_def clk2_def)
  have c: "short_code row_promo = ''promo1''" by (simp add: row_promo_def)
  from redirect_url_expired [OF schema_ok_db_three h2 h3 h4 h5, of rq0]
  show ?thesis using schema_ok_db_three h2 h3 h4 h5 c by simp
qed

section \<open>Resolving an unknown or deactivated code\<close>

text \<open>
  Claim C4. For every code for which no Link exists, and for every code whose Link is
  inactive, \<open>redirect_url\<close> fails with \<open>NotFoundError\<close> and leaves the database as it
  found it: no counter is incremented and no event is recorded.
\<close>

theorem redirect_url_not_found:
  assumes "c \<notin> short_code ` set (urls d)
           \<or> (schema_ok d \<and> (\<exists>r\<in>set (urls d). short_code r = c \<and> \<not> is_active r))"
  shows "redirect_url c rq clk d = (Inl NotFoundError, d)"
proof -
  have none: "\<forall>x\<in>set (urls d). \<not> (short_code x = c \<and> is_active x)"
    using assms
  proof
    assume "c \<notin> short_code ` set (urls d)"
    then show ?thesis by blast
  next
    assume a: "schema_ok d \<and> (\<exists>r\<in>set (urls d). short_code r = c \<and> \<not> is_active r)"
    then obtain r where r: "r \<in> set (urls d)" "short_code r = c" "\<not> is_active r" by blast
    show ?thesis
    proof (intro ballI notI)
      fix x assume x: "x \<in> set (urls d)" "short_code x = c \<and> is_active x"
      then have "x = r" using unique_code_row [of d r x] a r by simp
      then show False using x r by simp
    qed
  qed
  then have "find (\<lambda>r. short_code r = c \<and> is_active r) (urls d) = None"
    unfolding find_None_iff by blast
  then show ?thesis by (simp add: redirect_url_def)
qed

theorem redirect_url_not_found_witness:
  "''nosuch'' \<notin> short_code ` set (urls db_three)
   \<and> redirect_url ''nosuch'' rq0 clk0 db_three = (Inl NotFoundError, db_three)
   \<and> schema_ok db_three \<and> row_old \<in> set (urls db_three)
   \<and> short_code row_old = ''old001'' \<and> \<not> is_active row_old
   \<and> redirect_url ''old001'' rq0 clk0 db_three = (Inl NotFoundError, db_three)"
proof -
  have a: "''nosuch'' \<notin> short_code ` set (urls db_three)"
    by (simp add: db_three_def row_page_def row_old_def row_promo_def)
  have b: "row_old \<in> set (urls db_three)" by (simp add: db_three_def)
  have c: "short_code row_old = ''old001'' \<and> \<not> is_active row_old" by (simp add: row_old_def)
  have "redirect_url ''nosuch'' rq0 clk0 db_three = (Inl NotFoundError, db_three)"
    using redirect_url_not_found [of "''nosuch''" db_three rq0 clk0] a by blast
  moreover have "redirect_url ''old001'' rq0 clk0 db_three = (Inl NotFoundError, db_three)"
    using redirect_url_not_found [of "''old001''" db_three rq0 clk0] schema_ok_db_three b c
    by blast
  ultimately show ?thesis using a b c schema_ok_db_three by blast
qed

section \<open>A custom code that is taken\<close>

text \<open>
  Claim C5, as stated: every call of \<open>shorten_url\<close> with a custom code that some row
  has, and with an original URL that no active row has, fails with
  \<open>CodeConflictError\<close>. The URL is validated first: with the invalid URL
  \<^verbatim>\<open>"not a url"\<close> and the taken code \<^verbatim>\<open>abc123\<close> the call fails with
  \<open>InvalidURLError\<close> instead.
\<close>

theorem custom_code_conflict_counterexample:
  "code_exists ''abc123'' (urls db_page)
   \<and> existing_url ''not a url'' (urls db_page) = None
   \<and> shorten_url env0 clk0 []
        \<lparr>url_in = ''not a url'', custom_code = Some ''abc123'', expires_in_days = None\<rparr>
        db_page
      = Some (Inl InvalidURLError, db_page)
   \<and> InvalidURLError \<noteq> CodeConflictError"
proof -
  have "code_exists ''abc123'' (urls db_page)"
    by (simp add: code_exists_def db_page_def row_page_def)
  moreover have "existing_url ''not a url'' (urls db_page) = None"
    by (simp add: existing_url_def db_page_def row_page_def)
  moreover have "\<not> is_valid_url env0 ''not a url''"
    by (simp add: is_valid_url_def env0_def urlparse_sample_def)
  then have "shorten_url env0 clk0 []
        \<lparr>url_in = ''not a url'', custom_code = Some ''abc123'', expires_in_days = None\<rparr>
        db_page
      = Some (Inl InvalidURLError, db_page)"
    by (simp add: shorten_url_def)
  moreover have "InvalidURLError \<noteq> CodeConflictError"
    by (simp add: InvalidURLError_def CodeConflictError_def)
  ultimately show ?thesis by blast
qed

text \<open>
  Claim C5, amended: every call of \<open>shorten_url\<close> with a valid original URL that no
  active row has, and with a non-empty custom code that some row has, active or
  inactive, fails with \<open>CodeConflictError\<close> and leaves the database as it found it.
\<close>

theorem custom_code_conflict:
  assumes "is_valid_url ev u" and "c \<noteq> []" and "r \<in> set (urls d)" and "short_code r = c"
    and "\<not> (\<exists>x\<in>set (urls d). original_url x = u \<and> is_active x)"
  shows "shorten_url ev clk draws
           \<lparr>url_in = u, custom_code = Some c, expires_in_days = e\<rparr> d
         = Some (Inl CodeConflictError, d)"
proof -
  have "existing_url u (urls d) = None"
    using assms(5) existing_url_None [of u "urls d"] by blast
  moreover have "code_exists c (urls d)"
    using assms(3,4) code_exists_iff [of c "urls d"] by blast
  ultimately show ?thesis
    using assms(1,2) by (simp add: shorten_url_def unique_short_code_def)
qed

theorem custom_code_conflict_witness:
  "is_valid_url env0 ''https://example.com/page'' \<and> ''old001'' \<noteq> []
   \<and> row_old \<in> set (urls db_old) \<and> short_code row_old = ''old001''
   \<and> \<not> is_active row_old
   \<and> \<not> (\<exists>x\<in>set (urls db_old). original_url x = ''https://example.com/page'' \<and> is_active x)
   \<and> shorten_url env0 clk0 []
        \<lparr>url_in = ''https://example.com/page'', custom_code = Some ''old001'',
         expires_in_days = None\<rparr> db_old
      = Some (Inl CodeConflictError, db_old)"
proof -
  have a: "''old001'' \<noteq> []" by simp
  have b: "row_old \<in> set (urls db_old)" by (simp add: db_old_def)
  have c: "short_code row_old = ''old001''" by (simp add: row_old_def)
  have c': "\<not> is_active row_old" by (simp add: row_old_def)
  have e: "\<not> (\<exists>x\<in>set (urls db_old). original_url x = ''https://example.com/page'' \<and> is_active x)"
    by (simp add: db_old_def row_old_def)
  from custom_code_conflict [OF valid_sample a b c e, of clk0 "[]" None]
  show ?thesis using valid_sample a b c c' e by blast
qed

section \<open>After deactivation\<close>

text \<open>
  Claim C6. When \<open>delete_link\<close> is called on the code of an active Link it succeeds,
  and in every state that the service reaches afterwards, by any calls of
  \<open>shorten_url\<close>, \<open>redirect_url\<close> and \<open>delete_link\<close> in any order,
  \<open>redirect_url\<close> on that code fails with \<open>NotFoundError\<close> and changes nothing, no
  Link with that code is in the list of \<open>get_all_links\<close>, and \<open>get_url_analytics\<close> on
  that code succeeds and returns, for every click event that was recorded for the code
  before the deactivation, a click with the IP address, user agent, referrer and
  timestamp of that event.
\<close>

theorem deactivate_then:
  assumes "r \<in> set (urls d)" and "short_code r = c" and "is_active r"
    and "reach ev (snd (delete_link c d)) d'"
  shows "fst (delete_link c d) = Inr ''Link deactivated successfully''
     \<and> redirect_url c rq clk d' = (Inl NotFoundError, d')
     \<and> c \<notin> link_short_code ` set (get_all_links ev d')
     \<and> (\<exists>info cl. get_url_analytics c d' = Inr (info, cl)
           \<and> (\<forall>e\<in>set (analytics d). click_short_code e = c \<longrightarrow>
                (\<exists>k\<in>set cl. c_ip_address k = ip_address e
                   \<and> c_user_agent k = user_agent e
                   \<and> c_referrer k = referrer e
                   \<and> c_clicked_at k = clicked_at e)))"
proof -
  have c: "c \<in> short_code ` set (urls d)" using assms(1,2) by blast
  from delete_link_deactivates [OF c]
  have ok: "fst (delete_link c d) = Inr ''Link deactivated successfully''"
    and off: "deactivated c (urls (snd (delete_link c d)))"
    and an: "analytics (snd (delete_link c d)) = analytics d"
    by blast+
  from reach_deactivated [OF assms(4) off] an
  have off': "deactivated c (urls d')" and sub: "set (analytics d) \<subseteq> set (analytics d')"
    by simp_all
  have r1: "redirect_url c rq clk d' = (Inl NotFoundError, d')"
    using off' by (rule redirect_url_deactivated)
  have r2: "c \<notin> link_short_code ` set (get_all_links ev d')"
    using off' unfolding get_all_links_codes deactivated_def by blast
  have c': "c \<in> short_code ` set (urls d')" using off' by (simp add: deactivated_def)
  from get_url_analytics_clicks [OF c'] obtain info cl
    where g: "get_url_analytics c d' = Inr (info, cl)"
      and cl: "set cl = click_of ` {e \<in> set (analytics d'). click_short_code e = c}"
    by blast
  have "\<forall>e\<in>set (analytics d). click_short_code e = c \<longrightarrow>
          (\<exists>k\<in>set cl. c_ip_address k = ip_address e \<and> c_user_agent k = user_agent e
             \<and> c_referrer k = referrer e \<and> c_clicked_at k = clicked_at e)"
  proof (intro ballI impI)
    fix e assume e: "e \<in> set (analytics d)" "click_short_code e = c"
    with sub cl have "click_of e \<in> set cl" by blast
    moreover have "c_ip_address (click_of e) = ip_address e
        \<and> c_user_agent (click_of e) = user_agent e
        \<and> c_referrer (click_of e) = referrer e
        \<and> c_clicked_at (click_of e) = clicked_at e"
      by (simp add: click_of_def)
    ultimately show "\<exists>k\<in>set cl. c_ip_address k = ip_address e
        \<and> c_user_agent k = user_agent e \<and> c_referrer k = referrer e
        \<and> c_clicked_at k = clicked_at e"
      by blast
  qed
  with g have r3: "\<exists>info cl. get_url_analytics c d' = Inr (info, cl)
           \<and> (\<forall>e\<in>set (analytics d). click_short_code e = c \<longrightarrow>
                (\<exists>k\<in>set cl. c_ip_address k = ip_address e
                   \<and> c_user_agent k = user_agent e
                   \<and> c_referrer k = referrer e
                   \<and> c_clicked_at k = clicked_at e))"
    by blast
  from ok r1 r2 r3 show ?thesis by blast
qed

theorem deactivate_then_witness:
  "row_page \<in> set (urls db_today) \<and> short_code row_page = ''abc123'' \<and> is_active row_page
   \<and> delete_link ''abc123'' db_today = (Inr ''Link deactivated successfully'', db_off)
   \<and> reach env0 db_off db_again
   \<and> redirect_url ''abc123'' rq0 clk2 db_again = (Inl NotFoundError, db_again)
   \<and> ''abc123'' \<notin> link_short_code ` set (get_all_links env0 db_again)
   \<and> map link_short_code (get_all_links env0 db_again) = [''xyz789'']
   \<and> analytics db_today = [click_a, click_b]
   \<and> get_url_analytics ''abc123'' db_again
      = Inr (\<lparr>info_original_url = ''https://example.com/page'',
               info_short_code = ''abc123'', info_created_at = 1700000000,
               info_total_clicks = 0\<rparr>,
             [\<lparr>c_ip_address = ''10.0.0.8'', c_user_agent = ''curl/8.4.0'',
               c_referrer = [], c_clicked_at = 1700000000\<rparr>,
              \<lparr>c_ip_address = ''10.0.0.7'', c_user_agent = ''curl/8.4.0'',
               c_referrer = [], c_clicked_at = 1699950000\<rparr>])"
proof -
  have a: "row_page \<in> set (urls db_today)" by (simp add: db_today_def)
  have b: "short_code row_page = ''abc123''" by (simp add: row_page_def)
  have c: "is_active row_page" by (simp add: row_page_def)
  have re: "reach env0 db_off db_again"
    using reach_refl shorten_sample_again by (rule reach_shorten)
  then have e: "reach env0 (snd (delete_link ''abc123'' db_today)) db_again"
    by (simp add: delete_sample)
  have ev: "analytics db_today = [click_a, click_b]" by (simp add: db_today_def)
  from deactivate_then [OF a b c e, of rq0 clk2]
  have r: "redirect_url ''abc123'' rq0 clk2 db_again = (Inl NotFoundError, db_again)
      \<and> ''abc123'' \<notin> link_short_code ` set (get_all_links env0 db_again)"
    by blast
  have l: "map link_short_code (get_all_links env0 db_again) = [''xyz789'']"
    by (simp add: get_all_links_def db_again_def row_page_off_def row_page_def
        row_again_def link_of_def)
  have g: "get_url_analytics ''abc123'' db_again
      = Inr (\<lparr>info_original_url = ''https://example.com/page'',
               info_short_code = ''abc123'', info_created_at = 1700000000,
               info_total_clicks = 0\<rparr>,
             [\<lparr>c_ip_address = ''10.0.0.8'', c_user_agent = ''curl/8.4.0'',
               c_referrer = [], c_clicked_at = 1700000000\<rparr>,
              \<lparr>c_ip_address = ''10.0.0.7'', c_user_agent = ''curl/8.4.0'',
               c_referrer = [], c_clicked_at = 1699950000\<rparr>])"
    by (simp add: get_url_analytics_def db_again_def row_page_off_def row_page_def
        row_again_def click_a_def click_b_def click_of_def)
  from a b c delete_sample re r l ev g show ?thesis by blast
qed

section \<open>The lookup by original URL\<close>

text \<open>
  Claim C7, as stated: when several active Links have the same original URL, the lookup
  that \<open>shorten_url\<close> uses returns the one created last. The query has no
  \<^verbatim>\<open>ORDER BY\<close>: of two active rows with the same URL it returns the first, which was
  created 100 seconds before the other.
\<close>

theorem existing_url_counterexample:
  "schema_ok db_dup \<and> urls db_dup = [row_page, row_dup]
   \<and> is_active row_page \<and> is_active row_dup
   \<and> original_url row_page = ''https://example.com/page''
   \<and> original_url row_dup = ''https://example.com/page''
   \<and> created_at row_page < created_at row_dup
   \<and> existing_url ''https://example.com/page'' (urls db_dup) = Some row_page
   \<and> row_page \<noteq> row_dup"
proof -
  have "existing_url ''https://example.com/page'' (urls db_dup) = Some row_page"
    by (simp add: existing_url_def db_dup_def row_page_def)
  moreover have "urls db_dup = [row_page, row_dup]" by (simp add: db_dup_def)
  moreover have "is_active row_page \<and> is_active row_dup
      \<and> original_url row_page = ''https://example.com/page''
      \<and> original_url row_dup = ''https://example.com/page''
      \<and> created_at row_page < created_at row_dup \<and> row_page \<noteq> row_dup"
    by (simp add: row_page_def row_dup_def)
  ultimately show ?thesis using schema_ok_db_dup by blast
qed

text \<open>
  Claim C7, amended: the lookup returns an active Link with that original URL whose
  identity is the least among the active Links with that URL (the first of them in the
  table), and none exactly when no active Link has that URL.
\<close>

theorem existing_url_first:
  assumes "schema_ok d"
  shows "case existing_url u (urls d) of
           None \<Rightarrow> \<not> (\<exists>r\<in>set (urls d). original_url r = u \<and> is_active r)
         | Some r \<Rightarrow> r \<in> set (urls d) \<and> original_url r = u \<and> is_active r
             \<and> (\<forall>x\<in>set (urls d). original_url x = u \<and> is_active x
                   \<longrightarrow> url_id r \<le> url_id x)"
proof (cases "existing_url u (urls d)")
  case None
  then show ?thesis using existing_url_None [of u "urls d"] by simp
next
  case (Some r)
  have s: "sorted_wrt (<) (map url_id (urls d))" using assms by (simp add: schema_ok_def)
  have "find (\<lambda>r. original_url r = u \<and> is_active r) (urls d) = Some r"
    using Some by (simp add: existing_url_def)
  from find_sorted_least [OF this s] Some show ?thesis by simp
qed

theorem existing_url_first_witness:
  "schema_ok db_dup
   \<and> existing_url ''https://example.com/page'' (urls db_dup) = Some row_page
   \<and> row_dup \<in> set (urls db_dup)
   \<and> original_url row_dup = ''https://example.com/page'' \<and> is_active row_dup
   \<and> url_id row_page \<le> url_id row_dup
   \<and> existing_url ''https://example.com/old'' (urls db_dup) = None
   \<and> \<not> (\<exists>r\<in>set (urls db_dup). original_url r = ''https://example.com/old'' \<and> is_active r)"
proof -
  have a: "existing_url ''https://example.com/page'' (urls db_dup) = Some row_page"
    by (simp add: existing_url_def db_dup_def row_page_def)
  have b: "existing_url ''https://example.com/old'' (urls db_dup) = None"
    by (simp add: existing_url_def db_dup_def row_page_def row_dup_def)
  have m: "row_dup \<in> set (urls db_dup)" by (simp add: db_dup_def)
  have p: "original_url row_dup = ''https://example.com/page'' \<and> is_active row_dup"
    by (simp add: row_dup_def)
  from existing_url_first [OF schema_ok_db_dup, of "''https://example.com/page''"] a
  have "\<forall>x\<in>set (urls db_dup). original_url x = ''https://example.com/page'' \<and> is_active x
         \<longrightarrow> url_id row_page \<le> url_id x"
    by simp
  with m p have "url_id row_page \<le> url_id row_dup" by blast
  moreover from existing_url_first [OF schema_ok_db_dup, of "''https://example.com/old''"] b
  have "\<not> (\<exists>r\<in>set (urls db_dup). original_url r = ''https://example.com/old'' \<and> is_active r)"
    by simp
  ultimately show ?thesis using a b m p schema_ok_db_dup by blast
qed

section \<open>Click counts per day\<close>

text \<open>
  Claim C8. The daily counts of \<open>get_analytics\<close> ("click data for last 7 days") hold
  entries only for dates inside the trailing 7-day window that includes today, in
  ascending order of the date, without the dates that have no event. The query keeps
  every event on or after \<^verbatim>\<open>date('now', '-7 days')\<close>, the date seven days before
  today's, which is an eighth date: with today day 19675, an event on day 19668 is
  counted, although the seven days up to and including today are 19669 to 19675.
\<close>

theorem daily_counts_seven_days_ago:
  "DATE (CURRENT_TIMESTAMP clk0) = 19675
   \<and> analytics db_week = [click_d]
   \<and> DATE (clicked_at click_d) = 19675 - 7
   \<and> click_data (get_analytics clk0 db_week) = [(19668, 1)]"
  by (simp add: get_analytics_def daily_counts_def date_now_minus_def DATE_def
      CURRENT_TIMESTAMP_def clk0_def db_week_def click_d_def)

text \<open>
  What the query does give: one entry per calendar date (a UTC date, as SQLite
  computes it), in strictly ascending order of the date; every entry is for a date on or
  after the date 7 days before today's (and, when no event is dated after now, on or
  before today's), with a count that is positive and is the number of events of that
  date; every such date that has an event has an entry. Over events all dated 10 days
  ago the result is empty, and over one or more events all dated today it is the single
  entry for today with the number of those events.
\<close>

lemma daily_counts_window:
  "let cd = click_data (get_analytics clk d); today = DATE (CURRENT_TIMESTAMP clk) in
     sorted_wrt (<) (map fst cd)
     \<and> (\<forall>(dt, k)\<in>set cd. today - 7 \<le> dt \<and> 0 < k
           \<and> k = length (filter (\<lambda>e. DATE (clicked_at e) = dt) (analytics d)))
     \<and> (\<forall>e\<in>set (analytics d). today - 7 \<le> DATE (clicked_at e)
           \<longrightarrow> DATE (clicked_at e) \<in> fst ` set cd)
     \<and> ((\<forall>e\<in>set (analytics d). clicked_at e \<le> CURRENT_TIMESTAMP clk)
           \<longrightarrow> (\<forall>(dt, k)\<in>set cd. dt \<le> today))
     \<and> ((\<forall>e\<in>set (analytics d). DATE (clicked_at e) = today - 10) \<longrightarrow> cd = [])
     \<and> (analytics d \<noteq> [] \<and> (\<forall>e\<in>set (analytics d). DATE (clicked_at e) = today)
           \<longrightarrow> cd = [(today, length (analytics d))])"
proof -
  let ?rows = "analytics d"
  let ?today = "DATE (CURRENT_TIMESTAMP clk)"
  let ?cd = "daily_counts clk 7 ?rows"
  have w: "date_now_minus clk 7 = ?today - 7" by (simp add: date_now_minus_def)
  have entry: "?today - 7 \<le> dt \<and> 0 < k
      \<and> k = length (filter (\<lambda>e. DATE (clicked_at e) = dt) ?rows)"
    if "(dt, k) \<in> set ?cd" for dt k
    using daily_counts_entry [OF that] unfolding w .
  have c1: "sorted_wrt (<) (map fst ?cd)" by (rule daily_counts_sorted)
  have c2: "\<forall>(dt, k)\<in>set ?cd. ?today - 7 \<le> dt \<and> 0 < k
           \<and> k = length (filter (\<lambda>e. DATE (clicked_at e) = dt) ?rows)"
    using entry by blast
  have c3: "\<forall>e\<in>set ?rows. ?today - 7 \<le> DATE (clicked_at e)
           \<longrightarrow> DATE (clicked_at e) \<in> fst ` set ?cd"
  proof (intro ballI impI)
    fix e assume "e \<in> set ?rows" "?today - 7 \<le> DATE (clicked_at e)"
    then show "DATE (clicked_at e) \<in> fst ` set ?cd"
      using daily_counts_complete [of e ?rows clk 7] w by simp
  qed
  have c4: "(\<forall>e\<in>set ?rows. clicked_at e \<le> CURRENT_TIMESTAMP clk)
           \<longrightarrow> (\<forall>(dt, k)\<in>set ?cd. dt \<le> ?today)"
  proof (intro impI ballI)
    fix p assume past: "\<forall>e\<in>set ?rows. clicked_at e \<le> CURRENT_TIMESTAMP clk"
      and p: "p \<in> set ?cd"
    obtain dt k where pk: "p = (dt, k)" by (cases p)
    with p entry have "0 < length (filter (\<lambda>e. DATE (clicked_at e) = dt) ?rows)" by blast
    then have "filter (\<lambda>e. DATE (clicked_at e) = dt) ?rows \<noteq> []" by simp
    then obtain e where e: "e \<in> set ?rows" "DATE (clicked_at e) = dt"
      unfolding filter_empty_conv by blast
    with past have "clicked_at e \<le> CURRENT_TIMESTAMP clk" by blast
    then have "DATE (clicked_at e) \<le> ?today" by (rule date_mono)
    with e pk show "case p of (dt, k) \<Rightarrow> dt \<le> ?today" by simp
  qed
  have c5: "(\<forall>e\<in>set ?rows. DATE (clicked_at e) = ?today - 10) \<longrightarrow> ?cd = []"
  proof
    assume "\<forall>e\<in>set ?rows. DATE (clicked_at e) = ?today - 10"
    then have "\<forall>e\<in>set ?rows. DATE (clicked_at e) < date_now_minus clk 7"
      using w by simp
    then show "?cd = []" by (rule daily_counts_outside)
  qed
  have c6: "?rows \<noteq> [] \<and> (\<forall>e\<in>set ?rows. DATE (clicked_at e) = ?today)
           \<longrightarrow> ?cd = [(?today, length ?rows)]"
  proof
    assume a: "?rows \<noteq> [] \<and> (\<forall>e\<in>set ?rows. DATE (clicked_at e) = ?today)"
    have "date_now_minus clk 7 \<le> ?today" using w by simp
    with a show "?cd = [(?today, length ?rows)]"
      using daily_counts_one_date [of ?rows ?today clk 7] by blast
  qed
  have "click_data (get_analytics clk d) = ?cd" by (simp add: get_analytics_def)
  with c1 c2 c3 c4 c5 c6 show ?thesis by (simp only: Let_def)
qed

lemma daily_counts_window_sample:
  "DATE (CURRENT_TIMESTAMP clk0) = 19675
   \<and> analytics db_today = [click_a, click_b]
   \<and> DATE (clicked_at click_a) = 19675 \<and> DATE (clicked_at click_b) = 19675
   \<and> click_data (get_analytics clk0 db_today) = [(19675, 2)]
   \<and> analytics db_tenago = [click_c] \<and> DATE (clicked_at click_c) = 19675 - 10
   \<and> click_data (get_analytics clk0 db_tenago) = []"
proof -
  have t: "DATE (CURRENT_TIMESTAMP clk0) = 19675"
    by (simp add: DATE_def CURRENT_TIMESTAMP_def clk0_def)
  have a: "analytics db_today \<noteq> []" by (simp add: db_today_def)
  have b: "\<forall>e\<in>set (analytics db_today). DATE (clicked_at e) = 19675"
    by (simp add: db_today_def click_a_def click_b_def DATE_def)
  have l: "length (analytics db_today) = 2" by (simp add: db_today_def)
  have c: "\<forall>e\<in>set (analytics db_tenago). DATE (clicked_at e) = 19675 - 10"
    by (simp add: db_tenago_def click_c_def DATE_def)
  from daily_counts_window [of clk0 db_today] t a b l
  have r1: "click_data (get_analytics clk0 db_today) = [(19675, 2)]"
    by (simp add: Let_def)
  from daily_counts_window [of clk0 db_tenago] t c
  have r2: "click_data (get_analytics clk0 db_tenago) = []"
    by (simp add: Let_def)
  have e1: "analytics db_today = [click_a, click_b]" by (simp add: db_today_def)
  have e2: "DATE (clicked_at click_a) = 19675 \<and> DATE (clicked_at click_b) = 19675"
    by (simp add: click_a_def click_b_def DATE_def)
  have e3: "analytics db_tenago = [click_c]" by (simp add: db_tenago_def)
  have e4: "DATE (clicked_at click_c) = 19675 - 10" by (simp add: click_c_def DATE_def)
  from t e1 e2 e3 e4 r1 r2 show ?thesis by blast
qed

section \<open>The expiration of a new Link\<close>

text \<open>
  Claim C9. A new Link expires \<open>expires_in_days\<close> days after the call when the parameter
  is given, for any integer including 0, and never when it is not given. The handler
  tests the parameter for truth, not for presence: with \<open>expires_in_days = 0\<close> the new
  row has no expiration, and the call makes the same database as the call without the
  parameter (\<open>shorten_sample_page\<close>). For any other integer the expiration is as the
  claim says (\<open>expiration_date_given\<close>).
\<close>

theorem expires_in_days_zero:
  "shorten_url env0 clk0 []
     \<lparr>url_in = ''https://example.com/page'', custom_code = Some ''abc123'',
      expires_in_days = Some 0\<rparr> init_database
   = Some (Inr resp_page, db_page)
   \<and> urls db_page = [row_page] \<and> expires_at row_page = None"
  by (simp add: shorten_url_def is_valid_url_def urlparse_sample_def existing_url_def init_database_def
      unique_short_code_def code_exists_def expiration_date_def insert_url_def
      next_rowid_def new_url_row_def CURRENT_TIMESTAMP_def datetime_now_def clk0_def
      short_url_of_def generate_qr_code_def env0_def qr_sample_def resp_page_def
      db_page_def row_page_def)

section \<open>Deactivating twice\<close>

lemma delete_link_inactive_same:
  assumes "\<forall>x\<in>set rows. short_code x = c \<longrightarrow> \<not> is_active x"
  shows "map (\<lambda>r. if short_code r = c then r\<lparr>is_active := False\<rparr> else r) rows = rows"
proof -
  have "\<And>x. x \<in> set rows \<Longrightarrow> (if short_code x = c then x\<lparr>is_active := False\<rparr> else x) = x"
    using assms by simp
  then show ?thesis by (simp add: map_idI)
qed

text \<open>
  Claim C10. \<open>delete_link\<close> fails with \<open>NotFoundError\<close> exactly when no row has the
  code; on any code that some row has it reports success; and on a code whose Link is
  already inactive it reports success and leaves the database, and so that Link,
  identical to what it was before the call.
\<close>

theorem delete_link_idempotent:
  "(fst (delete_link c d) = Inl NotFoundError \<longleftrightarrow> c \<notin> short_code ` set (urls d))
   \<and> (c \<in> short_code ` set (urls d) \<longrightarrow>
        fst (delete_link c d) = Inr ''Link deactivated successfully'')
   \<and> (schema_ok d \<longrightarrow> (\<forall>r\<in>set (urls d). short_code r = c \<and> \<not> is_active r \<longrightarrow>
        delete_link c d = (Inr ''Link deactivated successfully'', d)))"
proof (intro conjI impI ballI)
  have len: "(length (filter (\<lambda>r. short_code r = c) (urls d)) = 0)
        \<longleftrightarrow> c \<notin> short_code ` set (urls d)"
    by (auto simp: filter_empty_conv)
  show "(fst (delete_link c d) = Inl NotFoundError) = (c \<notin> short_code ` set (urls d))"
    using len by (simp add: delete_link_def Let_def)
  show "fst (delete_link c d) = Inr ''Link deactivated successfully''"
    if "c \<in> short_code ` set (urls d)"
    using len that by (simp add: delete_link_def Let_def)
  show "delete_link c d = (Inr ''Link deactivated successfully'', d)"
    if ok: "schema_ok d" and r: "r \<in> set (urls d)" and rc: "short_code r = c \<and> \<not> is_active r" for r
  proof -
    have "\<forall>x\<in>set (urls d). short_code x = c \<longrightarrow> \<not> is_active x"
    proof (intro ballI impI)
      fix x assume "x \<in> set (urls d)" "short_code x = c"
      then have "x = r" using unique_code_row [of d r x] ok r rc by simp
      then show "\<not> is_active x" using rc by simp
    qed
    then have "map (\<lambda>r. if short_code r = c then r\<lparr>is_active := False\<rparr> else r) (urls d) = urls d"
      by (rule delete_link_inactive_same)
    moreover have "c \<in> short_code ` set (urls d)" using r rc by blast
    ultimately show ?thesis using len by (simp add: delete_link_def Let_def)
  qed
qed

theorem delete_link_idempotent_witness:
  "schema_ok db_three \<and> row_old \<in> set (urls db_three) \<and> short_code row_old = ''old001''
   \<and> \<not> is_active row_old
   \<and> delete_link ''old001'' db_three = (Inr ''Link deactivated successfully'', db_three)
   \<and> ''nosuch'' \<notin> short_code ` set (urls db_three)
   \<and> fst (delete_link ''nosuch'' db_three) = Inl NotFoundError
   \<and> ''abc123'' \<in> short_code ` set (urls db_three)
   \<and> fst (delete_link ''abc123'' db_three) = Inr ''Link deactivated successfully''"
proof -
  have a: "''nosuch'' \<notin> short_code ` set (urls db_three)"
    by (simp add: db_three_def row_page_def row_old_def row_promo_def)
  have b: "row_old \<in> set (urls db_three)" by (simp add: db_three_def)
  have c: "short_code row_old = ''old001'' \<and> \<not> is_active row_old" by (simp add: row_old_def)
  have e: "''abc123'' \<in> short_code ` set (urls db_three)"
    by (simp add: db_three_def row_page_def)
  have "delete_link ''old001'' db_three = (Inr ''Link deactivated successfully'', db_three)"
    using delete_link_idempotent [of "''old001''" db_three] schema_ok_db_three b c by blast
  moreover have "fst (delete_link ''nosuch'' db_three) = Inl NotFoundError"
    using delete_link_idempotent [of "''nosuch''" db_three] a by blast
  moreover have "fst (delete_link ''abc123'' db_three) = Inr ''Link deactivated successfully''"
    using delete_link_idempotent [of "''abc123''" db_three] e by blast
  ultimately show ?thesis using a b c e schema_ok_db_three by blast
qed

end
